theory Spec2Isabelle
  imports Complex_Main "HOL-Library.Word"
begin

chapter \<open>The product testing component (src/components/ProductTesting.tsx)\<close>

section \<open>JavaScript strings\<close>

text \<open>
  A JavaScript string is a sequence of UTF-16 code units. String literals of the source
  are ASCII and are written through \<open>js\<close>.
\<close>

type_synonym jschar = "16 word"
type_synonym jsstring = "jschar list"

definition js :: "string \<Rightarrow> jsstring" where
  "js s = map of_char s"

text \<open>
  The character class \<^verbatim>\<open>\s\<close> of a regular expression without the \<^verbatim>\<open>u\<close> flag:
  the WhiteSpace and LineTerminator code units of ECMAScript (TAB, LF, VT, FF, CR, SP,
  NBSP, U+1680, U+2000..U+200A, LS, PS, U+202F, U+205F, U+3000, ZWNBSP).
\<close>

definition isWhiteSpace :: "jschar \<Rightarrow> bool" where
  "isWhiteSpace c \<longleftrightarrow>
     c \<in> {0x09, 0x0A, 0x0B, 0x0C, 0x0D, 0x20, 0xA0, 0x1680, 0x2028, 0x2029,
          0x202F, 0x205F, 0x3000, 0xFEFF} \<or> (0x2000 \<le> c \<and> c \<le> 0x200A)"

text \<open>
  \<^verbatim>\<open>s.replace(/\s+/g, '_')\<close>: the scan goes left to right; at a whitespace code unit the
  greedy \<^verbatim>\<open>\s+\<close> consumes the whole run that starts there, one underscore is emitted and
  the scan resumes behind the run; any other code unit is copied.
\<close>

function replace_ws :: "jsstring \<Rightarrow> jsstring" where
  "replace_ws [] = []"
| "replace_ws (c # cs) =
     (if isWhiteSpace c then of_char CHR ''_'' # replace_ws (dropWhile isWhiteSpace cs)
      else c # replace_ws cs)"
  by pat_completeness auto
termination
  by (relation "measure length") (auto simp: length_dropWhile_le less_Suc_eq_le)

text \<open>
  The wording of the specification, for comparison with \<open>replace_ws\<close>: the string is cut
  into its maximal runs of whitespace and of non-whitespace, and every whitespace run is
  replaced by a single underscore.
\<close>

fun runs :: "('a \<Rightarrow> bool) \<Rightarrow> 'a list \<Rightarrow> 'a list list" where
  "runs P [] = []"
| "runs P (x # xs) =
     (case runs P xs of
        [] \<Rightarrow> [x] # []
      | r # rs \<Rightarrow> if P (hd r) = P x then (x # r) # rs else [x] # r # rs)"

fun alternating :: "('a \<Rightarrow> bool) \<Rightarrow> 'a list list \<Rightarrow> bool" where
  "alternating P (r # s # rs) \<longleftrightarrow> P (hd r) \<noteq> P (hd s) \<and> alternating P (s # rs)"
| "alternating P _ \<longleftrightarrow> True"

definition collapse_spec :: "jsstring \<Rightarrow> jsstring" where
  "collapse_spec s =
     concat (map (\<lambda>r. if isWhiteSpace (hd r) then js ''_'' else r) (runs isWhiteSpace s))"

text \<open>
  Number-to-string conversion of a template literal, for an integral Number of magnitude
  below \<open>10^21\<close> (every time value of \<^verbatim>\<open>Date.now()\<close> is): the decimal digits, with a
  leading minus sign for a negative value.
\<close>

definition digit :: "nat \<Rightarrow> jschar" where
  "digit d = of_nat (48 + d)"

function digits :: "nat \<Rightarrow> jsstring" where
  "digits n = (if n < 10 then [digit n] else digits (n div 10) @ [digit (n mod 10)])"
  by pat_completeness auto
termination
  by (relation "measure (\<lambda>n. n)") auto

declare digits.simps [simp del]

definition numberToString :: "int \<Rightarrow> jsstring" where
  "numberToString n = (if n < 0 then js ''-'' @ digits (nat (- n)) else digits (nat n))"

definition isDigit :: "jschar \<Rightarrow> bool" where
  "isDigit c \<longleftrightarrow> 0x30 \<le> c \<and> c \<le> 0x39"

definition digits_value :: "jsstring \<Rightarrow> nat" where
  "digits_value ds = foldl (\<lambda>a c. 10 * a + (unat c - 48)) 0 ds"

section \<open>Suggested file names of the two export paths\<close>

text \<open>
  Line 216, \<^verbatim>\<open>`${selectedProduct.name.replace(/\s+/g, '_')}_test_report_${Date.now()}.docx`\<close>,
  and line 241, \<^verbatim>\<open>`${selectedProduct.name.replace(/\s+/g, '_')}_test_report.docx`\<close>.
\<close>

definition download_filename :: "jsstring \<Rightarrow> int \<Rightarrow> jsstring" where
  "download_filename nm now =
     replace_ws nm @ js ''_test_report_'' @ numberToString now @ js ''.docx''"

definition email_filename :: "jsstring \<Rightarrow> jsstring" where
  "email_filename nm = replace_ws nm @ js ''_test_report.docx''"

datatype purpose = Download | Email

definition suggested_filename :: "purpose \<Rightarrow> jsstring \<Rightarrow> int \<Rightarrow> jsstring" where
  "suggested_filename pu nm now =
     (case pu of Download \<Rightarrow> download_filename nm now | Email \<Rightarrow> email_filename nm)"

section \<open>Data model\<close>

text \<open>
  The three entity types the component reads from the record store, with the fields the
  source uses. A JavaScript Number that is a price is a rational here; a date is its time
  value in milliseconds.
\<close>

record product =
  p_id :: jsstring
  inventoryId :: jsstring
  p_name :: jsstring
  description :: jsstring
  price :: rat
  updatedAt :: int

record componentTest =
  c_id :: jsstring
  c_productId :: jsstring
  c_name :: jsstring
  status :: jsstring
  c_notes :: jsstring
  testedAt :: "int option"

record productPhoto =
  ph_id :: jsstring
  ph_productId :: jsstring
  url :: jsstring

text \<open>The part of the component's React state that the modelled handlers read or set.\<close>

record ui_state =
  selectedProductId :: "jsstring option"
  showExportModal :: bool
  showInventorySearch :: bool
  inventorySearchId :: jsstring
  emailAddress :: jsstring
  isGeneratingDoc :: bool

text \<open>The data of the three \<^verbatim>\<open>useQuery\<close> hooks as a handler's closure sees them.\<close>

record query_data =
  selectedProduct :: "product option"
  components :: "componentTest list"
  photos :: "productPhoto list"

section \<open>Exceptions and observable effects\<close>

datatype error = Exception jsstring

datatype ui_effect =
    ConsoleError jsstring error
  | Alert jsstring
  | Navigate jsstring

text \<open>
  The trace of an export handler: the calls it makes, in order. A call of the
  component's own \<^verbatim>\<open>captureScreenshot\<close> is recorded on entry; a call of the report
  builder is recorded with its four arguments, a call of \<^verbatim>\<open>Packer.toBlob\<close> with the
  document, and the click on the temporary anchor with its \<^verbatim>\<open>download\<close> attribute and
  the blob behind its \<^verbatim>\<open>href\<close>.
\<close>

datatype ('doc, 'blob) call =
    Called_captureScreenshot
  | Called_generateWordDocument product "componentTest list" "productPhoto list" "jsstring option"
  | Called_Packer_toBlob 'doc
  | Clicked_download jsstring 'blob
  | Ui ui_effect

text \<open>
  A computation that may throw and that leaves a trace: the outcome (\<open>Inl\<close> a thrown
  exception, \<open>Inr\<close> a value) and the events up to it. An \<^verbatim>\<open>await\<close> of a rejected
  promise throws, so an async function is such a computation as well.
\<close>

type_synonym ('a, 'ev) io = "(error + 'a) \<times> 'ev list"

definition return_io :: "'a \<Rightarrow> ('a, 'ev) io" where
  "return_io x = (Inr x, [])"

definition lift_io :: "error + 'a \<Rightarrow> ('a, 'ev) io" where
  "lift_io r = (r, [])"

definition effect_io :: "'ev \<Rightarrow> (unit, 'ev) io" where
  "effect_io ev = (Inr (), [ev])"

definition call_io :: "'ev \<Rightarrow> error + 'a \<Rightarrow> ('a, 'ev) io" where
  "call_io ev r = (r, [ev])"

definition bind_io :: "('a, 'ev) io \<Rightarrow> ('a \<Rightarrow> ('b, 'ev) io) \<Rightarrow> ('b, 'ev) io" where
  "bind_io m f =
     (case m of
        (Inl e, t) \<Rightarrow> (Inl e, t)
      | (Inr x, t) \<Rightarrow> (case f x of (r, t') \<Rightarrow> (r, t @ t')))"

definition try_catch :: "('a, 'ev) io \<Rightarrow> (error \<Rightarrow> ('a, 'ev) io) \<Rightarrow> ('a, 'ev) io" where
  "try_catch m h =
     (case m of
        (Inl e, t) \<Rightarrow> (case h e of (r, t') \<Rightarrow> (r, t @ t'))
      | (Inr x, t) \<Rightarrow> (Inr x, t))"

section \<open>External collaborators of the export path\<close>

text \<open>
  What the export handlers call outside this file, as parameters: the current value of
  \<^verbatim>\<open>testPanelRef\<close>, \<^verbatim>\<open>html2canvas\<close> and \<^verbatim>\<open>canvas.toDataURL\<close>, the report builder
  \<^verbatim>\<open>generateWordDocument\<close> of \<^verbatim>\<open>lib/wordExport\<close>, \<^verbatim>\<open>Packer.toBlob\<close>, the clock,
  \<^verbatim>\<open>encodeURIComponent\<close> and the locale's date string. Each call may throw. The DOM
  calls around the anchor click are taken not to throw.
\<close>

record ('el, 'cv, 'doc, 'blob) env =
  testPanelRef_current :: "'el option"
  html2canvas :: "'el \<Rightarrow> error + 'cv"
  toDataURL :: "'cv \<Rightarrow> error + jsstring"
  ext_generateWordDocument ::
    "product \<Rightarrow> componentTest list \<Rightarrow> productPhoto list \<Rightarrow> jsstring option \<Rightarrow> error + 'doc"
  Packer_toBlob :: "'doc \<Rightarrow> error + 'blob"
  Date_now :: int
  encodeURIComponent :: "jsstring \<Rightarrow> error + jsstring"
  toLocaleDateString :: jsstring

section \<open>captureScreenshot (lines 189-202)\<close>

definition captureScreenshot ::
  "('el, 'cv, 'doc, 'blob) env \<Rightarrow> (jsstring option, ('doc, 'blob) call) io" where
  "captureScreenshot env =
     bind_io (effect_io Called_captureScreenshot) (\<lambda>_.
       case testPanelRef_current env of
         None \<Rightarrow> return_io None
       | Some el \<Rightarrow>
           try_catch
             (bind_io (lift_io (html2canvas env el)) (\<lambda>canvas.
              bind_io (lift_io (toDataURL env canvas)) (\<lambda>dataUrl.
              return_io (Some dataUrl))))
             (\<lambda>err.
              bind_io (effect_io (Ui (ConsoleError (js ''Screenshot capture failed:'') err))) (\<lambda>_.
              return_io None)))"

section \<open>handleDownloadWordReport (lines 204-227) and handleEmailReport (lines 229-259)\<close>

definition download_try ::
  "('el, 'cv, 'doc, 'blob) env \<Rightarrow> product \<Rightarrow> query_data \<Rightarrow> (unit, ('doc, 'blob) call) io" where
  "download_try env p qd =
     bind_io (captureScreenshot env) (\<lambda>screenshot.
     bind_io (call_io (Called_generateWordDocument p (components qd) (photos qd) screenshot)
                (ext_generateWordDocument env p (components qd) (photos qd) screenshot)) (\<lambda>doc.
     bind_io (call_io (Called_Packer_toBlob doc) (Packer_toBlob env doc)) (\<lambda>blob.
     effect_io (Clicked_download (download_filename (p_name p) (Date_now env)) blob))))"

definition handleDownloadWordReport ::
  "('el, 'cv, 'doc, 'blob) env \<Rightarrow> query_data \<Rightarrow> ui_state \<Rightarrow> ui_state \<times> ('doc, 'blob) call list" where
  "handleDownloadWordReport env qd ui =
     (case selectedProduct qd of
        None \<Rightarrow> (ui, [])
      | Some p \<Rightarrow>
          (case try_catch (download_try env p qd)
                  (\<lambda>err.
                   bind_io (effect_io (Ui (ConsoleError (js ''Document generation failed:'') err))) (\<lambda>_.
                   effect_io (Ui (Alert (js ''Failed to generate document. Please try again.'')))))
           of (_, t) \<Rightarrow> (ui\<lparr>isGeneratingDoc := False\<rparr>, t)))"

definition email_subject :: "product \<Rightarrow> jsstring" where
  "email_subject p =
     js ''Product Testing Report: '' @ p_name p @ js '' (ID: '' @ inventoryId p @ js '')''"

definition email_body :: "product \<Rightarrow> jsstring \<Rightarrow> jsstring" where
  "email_body p today =
     js ''Please find attached the testing report for '' @ p_name p @ js ''.'' @ [0x0A, 0x0A]
     @ js ''Inventory ID: '' @ inventoryId p @ [0x0A]
     @ js ''Test Date: '' @ today @ [0x0A, 0x0A]
     @ js ''Note: The Word document has been downloaded to your computer. Please attach it to this email.''"

definition email_try ::
  "('el, 'cv, 'doc, 'blob) env \<Rightarrow> product \<Rightarrow> query_data \<Rightarrow> ui_state
     \<Rightarrow> (ui_state, ('doc, 'blob) call) io" where
  "email_try env p qd ui =
     bind_io (captureScreenshot env) (\<lambda>screenshot.
     bind_io (call_io (Called_generateWordDocument p (components qd) (photos qd) screenshot)
                (ext_generateWordDocument env p (components qd) (photos qd) screenshot)) (\<lambda>doc.
     bind_io (call_io (Called_Packer_toBlob doc) (Packer_toBlob env doc)) (\<lambda>blob.
     bind_io (effect_io (Clicked_download (email_filename (p_name p)) blob)) (\<lambda>_.
     bind_io (lift_io (encodeURIComponent env (email_subject p))) (\<lambda>subject.
     bind_io (lift_io (encodeURIComponent env (email_body p (toLocaleDateString env)))) (\<lambda>body.
     bind_io (effect_io (Ui (Navigate
                (js ''mailto:'' @ emailAddress ui @ js ''?subject='' @ subject
                 @ js ''&body='' @ body)))) (\<lambda>_.
     return_io (ui\<lparr>showExportModal := False, emailAddress := []\<rparr>))))))))"

definition handleEmailReport ::
  "('el, 'cv, 'doc, 'blob) env \<Rightarrow> query_data \<Rightarrow> ui_state \<Rightarrow> ui_state \<times> ('doc, 'blob) call list" where
  "handleEmailReport env qd ui =
     (case selectedProduct qd of
        None \<Rightarrow> (ui, [])
      | Some p \<Rightarrow>
          if emailAddress ui = [] then (ui, [])
          else
            (case try_catch (email_try env p qd ui)
                    (\<lambda>err.
                     bind_io (effect_io (Ui (ConsoleError (js ''Email preparation failed:'') err))) (\<lambda>_.
                     bind_io (effect_io (Ui (Alert (js ''Failed to prepare email. Please try again.'')))) (\<lambda>_.
                     return_io ui)))
             of (Inr ui', t) \<Rightarrow> (ui'\<lparr>isGeneratingDoc := False\<rparr>, t)
              | (Inl _, t) \<Rightarrow> (ui\<lparr>isGeneratingDoc := False\<rparr>, t)))"

text \<open>Readings of a trace.\<close>

fun is_capture :: "('doc, 'blob) call \<Rightarrow> bool" where
  "is_capture Called_captureScreenshot = True"
| "is_capture _ = False"

fun is_build :: "('doc, 'blob) call \<Rightarrow> bool" where
  "is_build (Called_generateWordDocument _ _ _ _) = True"
| "is_build _ = False"

fun downloaded :: "('doc, 'blob) call list \<Rightarrow> (jsstring \<times> 'blob) list" where
  "downloaded [] = []"
| "downloaded (Clicked_download f b # t) = (f, b) # downloaded t"
| "downloaded (_ # t) = downloaded t"

section \<open>getStatusIcon (lines 261-270)\<close>

text \<open>The returned JSX element: which icon component, and its class string.\<close>

datatype icon = CheckCircle | XCircle | Circle

record element =
  el_icon :: icon
  className :: jsstring

definition getStatusIcon :: "jsstring \<Rightarrow> element" where
  "getStatusIcon st =
     (if st = js ''working'' then
        \<lparr>el_icon = CheckCircle, className = js ''w-5 h-5 text-green-500''\<rparr>
      else if st = js ''not-working'' then
        \<lparr>el_icon = XCircle, className = js ''w-5 h-5 text-red-500''\<rparr>
      else
        \<lparr>el_icon = Circle, className = js ''w-5 h-5 text-gray-400''\<rparr>)"

section \<open>The record store\<close>

text \<open>
  Modelled from the spec: the record store behind \<^verbatim>\<open>useQuery\<close>, \<^verbatim>\<open>useLazyQuery\<close> and
  \<^verbatim>\<open>useMutation\<close> is the hosted SDK, which is not part of the sources. Section 6 of the
  specification gives its contract: a query returns the records that match an equality
  filter, in the store's order; an update changes the given fields of the record with the
  given id; a remove deletes the record with the given id. Any request may be rejected,
  which the handlers catch: \<open>faultAfter\<close> is the number of requests that still succeed
  (\<open>None\<close>: every request succeeds).
\<close>

record store =
  products :: "product list"
  componentTests :: "componentTest list"
  productPhotos :: "productPhoto list"
  faultAfter :: "nat option"

type_synonym 'a request = "store \<Rightarrow> (error + 'a) \<times> store"

definition request :: "(store \<Rightarrow> 'a \<times> store) \<Rightarrow> 'a request" where
  "request f s =
     (case faultAfter s of
        None \<Rightarrow> (case f s of (x, s') \<Rightarrow> (Inr x, s'))
      | Some 0 \<Rightarrow> (Inl (Exception (js ''request rejected'')), s)
      | Some (Suc n) \<Rightarrow> (case f (s\<lparr>faultAfter := Some n\<rparr>) of (x, s') \<Rightarrow> (Inr x, s')))"

definition bind_rq :: "'a request \<Rightarrow> ('a \<Rightarrow> 'b request) \<Rightarrow> 'b request" where
  "bind_rq m f s = (case m s of (Inl e, s') \<Rightarrow> (Inl e, s') | (Inr x, s') \<Rightarrow> f x s')"

definition queryProducts :: "jsstring \<Rightarrow> product list request" where
  "queryProducts invId = request (\<lambda>s. (filter (\<lambda>p. inventoryId p = invId) (products s), s))"

definition queryComponents :: "jsstring \<Rightarrow> componentTest list request" where
  "queryComponents pid = request (\<lambda>s. (filter (\<lambda>c. c_productId c = pid) (componentTests s), s))"

definition queryPhotos :: "jsstring \<Rightarrow> productPhoto list request" where
  "queryPhotos pid = request (\<lambda>s. (filter (\<lambda>ph. ph_productId ph = pid) (productPhotos s), s))"

definition updateComponent :: "jsstring \<Rightarrow> (componentTest \<Rightarrow> componentTest) \<Rightarrow> unit request" where
  "updateComponent cid partialFields =
     request (\<lambda>s. ((), s\<lparr>componentTests :=
                           map (\<lambda>c. if c_id c = cid then partialFields c else c) (componentTests s)\<rparr>))"

definition deletePhoto :: "jsstring \<Rightarrow> unit request" where
  "deletePhoto phid =
     request (\<lambda>s. ((), s\<lparr>productPhotos := filter (\<lambda>ph. ph_id ph \<noteq> phid) (productPhotos s)\<rparr>))"

definition deleteProduct :: "jsstring \<Rightarrow> unit request" where
  "deleteProduct pid =
     request (\<lambda>s. ((), s\<lparr>products := filter (\<lambda>p. p_id p \<noteq> pid) (products s)\<rparr>))"

section \<open>handleDeleteProduct (lines 147-170)\<close>

text \<open>The two \<^verbatim>\<open>for ... of\<close> loops, each awaiting one request per record.\<close>

fun detach_components :: "componentTest list \<Rightarrow> unit request" where
  "detach_components [] s = (Inr (), s)"
| "detach_components (component # rest) s =
     bind_rq (updateComponent (c_id component) (\<lambda>c. c\<lparr>c_productId := []\<rparr>)) (\<lambda>_.
     detach_components rest) s"

fun delete_photos :: "productPhoto list \<Rightarrow> unit request" where
  "delete_photos [] s = (Inr (), s)"
| "delete_photos (photo # rest) s =
     bind_rq (deletePhoto (ph_id photo)) (\<lambda>_. delete_photos rest) s"

definition delete_try :: "jsstring \<Rightarrow> unit request" where
  "delete_try pid =
     bind_rq (queryComponents pid) (\<lambda>productComponents.
     bind_rq (detach_components productComponents) (\<lambda>_.
     bind_rq (queryPhotos pid) (\<lambda>productPhotos.
     bind_rq (delete_photos productPhotos) (\<lambda>_.
     deleteProduct pid))))"

definition handleDeleteProduct ::
  "jsstring \<Rightarrow> ui_state \<Rightarrow> store \<Rightarrow> ui_state \<times> store \<times> ui_effect list" where
  "handleDeleteProduct pid ui s =
     (case delete_try pid s of
        (Inr _, s') \<Rightarrow>
          ((if selectedProductId ui = Some pid then ui\<lparr>selectedProductId := None\<rparr> else ui),
           s', [])
      | (Inl err, s') \<Rightarrow> (ui, s', [ConsoleError (js ''Failed to delete product:'') err]))"

section \<open>handleSearchByInventoryId (lines 172-187)\<close>

definition handleSearchByInventoryId ::
  "ui_state \<Rightarrow> store \<Rightarrow> ui_state \<times> store \<times> ui_effect list" where
  "handleSearchByInventoryId ui s =
     (if inventorySearchId ui = [] then (ui, s, [])
      else
        (case queryProducts (inventorySearchId ui) s of
           (Inr results, s') \<Rightarrow>
             (case results of
                r # _ \<Rightarrow>
                  (ui\<lparr>selectedProductId := Some (p_id r), showInventorySearch := False,
                      inventorySearchId := []\<rparr>, s', [])
              | [] \<Rightarrow> (ui, s', [Alert (js ''Product not found with this Inventory ID'')]))
         | (Inl err, s') \<Rightarrow> (ui, s', [ConsoleError (js ''Failed to search product:'') err])))"

section \<open>The components hook (lines 37-39) and getStatusStats (lines 272-278)\<close>

text \<open>
  \<^verbatim>\<open>selectedProductId || ''\<close>: the empty string when nothing is selected (and when the
  selected id is itself the empty string).
\<close>

definition or_empty :: "jsstring option \<Rightarrow> jsstring" where
  "or_empty v = (case v of None \<Rightarrow> [] | Some x \<Rightarrow> x)"

text \<open>
  Modelled from the spec: the data of \<^verbatim>\<open>useQuery('ComponentTest', {where: {productId}})\<close>,
  a hook of the hosted SDK: absent while the query is pending, and the records of the
  store whose owning product reference equals the filter once it has loaded. The source
  reads it with the default \<^verbatim>\<open>= []\<close>.
\<close>

definition useQuery_ComponentTest :: "bool \<Rightarrow> store \<Rightarrow> jsstring \<Rightarrow> componentTest list option" where
  "useQuery_ComponentTest pending s pid =
     (if pending then None else Some (filter (\<lambda>c. c_productId c = pid) (componentTests s)))"

definition components_hook :: "bool \<Rightarrow> store \<Rightarrow> ui_state \<Rightarrow> componentTest list" where
  "components_hook pending s ui =
     (case useQuery_ComponentTest pending s (or_empty (selectedProductId ui)) of
        None \<Rightarrow> []
      | Some d \<Rightarrow> d)"

record stats =
  working :: nat
  notWorking :: nat
  untested :: nat
  total_count :: nat

definition getStatusStats :: "componentTest list \<Rightarrow> jsstring \<Rightarrow> stats" where
  "getStatusStats comps productId =
     (let productComponents = filter (\<lambda>c. c_productId c = productId) comps
      in \<lparr>working = length (filter (\<lambda>c. status c = js ''working'') productComponents),
          notWorking = length (filter (\<lambda>c. status c = js ''not-working'') productComponents),
          untested = length (filter (\<lambda>c. status c = js ''untested'') productComponents),
          total_count = length productComponents\<rparr>)"

text \<open>
  Line 336, \<^verbatim>\<open>stats.total > 0 ? Math.round((stats.working / stats.total) * 100) : 0\<close>.
  The rounded quotient is floating-point arithmetic and stays a parameter.
\<close>

definition passRate :: "(nat \<Rightarrow> nat \<Rightarrow> int) \<Rightarrow> stats \<Rightarrow> int" where
  "passRate round_percent st =
     (if total_count st > 0 then round_percent (working st) (total_count st) else 0)"

section \<open>The report builder\<close>

text \<open>
  Modelled from the spec: \<^verbatim>\<open>generateWordDocument\<close> lives in \<^verbatim>\<open>lib/wordExport\<close>, which is
  not part of the sources. Sections 3, 4.1 and 7 of the specification describe the
  document it builds: a title block (name, inventory id, description, price); one entry
  per component, in the order supplied, with name, status marker, notes and the
  last-tested time if present; one entry per photo, in the order supplied, which is the
  embedded image or, when the image source cannot be decoded, a visible
  image-unavailable marker; the screenshot section only when a screenshot is given; and a
  generated-at stamp. A product without a name or an inventory id is rejected as invalid
  input. An unrecognised status renders as untested.
\<close>

datatype status_marker = Marker_working | Marker_not_working | Marker_untested

definition status_marker_of :: "jsstring \<Rightarrow> status_marker" where
  "status_marker_of st =
     (if st = js ''working'' then Marker_working
      else if st = js ''not-working'' then Marker_not_working
      else Marker_untested)"

record title_block =
  tb_name :: jsstring
  tb_inventoryId :: jsstring
  tb_description :: jsstring
  tb_price :: rat

record component_entry =
  ce_name :: jsstring
  ce_marker :: status_marker
  ce_notes :: jsstring
  ce_testedAt :: "int option"

datatype image_entry = Embedded jsstring | Image_unavailable jsstring

fun image_source :: "image_entry \<Rightarrow> jsstring" where
  "image_source (Embedded src) = src"
| "image_source (Image_unavailable src) = src"

record document =
  title :: title_block
  component_entries :: "component_entry list"
  photo_entries :: "image_entry list"
  screenshot_section :: "image_entry option"
  generatedAt :: int

datatype build_error = InvalidInput

definition embed_image :: "(jsstring \<Rightarrow> bool) \<Rightarrow> jsstring \<Rightarrow> image_entry" where
  "embed_image decodable src = (if decodable src then Embedded src else Image_unavailable src)"

definition component_entry_of :: "componentTest \<Rightarrow> component_entry" where
  "component_entry_of c =
     \<lparr>ce_name = c_name c, ce_marker = status_marker_of (status c), ce_notes = c_notes c,
      ce_testedAt = testedAt c\<rparr>"

definition generateWordDocument ::
  "(jsstring \<Rightarrow> bool) \<Rightarrow> int \<Rightarrow> product \<Rightarrow> componentTest list \<Rightarrow> productPhoto list
     \<Rightarrow> jsstring option \<Rightarrow> build_error + document" where
  "generateWordDocument decodable now p comps phs screenshot =
     (if p_name p = [] \<or> inventoryId p = [] then Inl InvalidInput
      else Inr \<lparr>title = \<lparr>tb_name = p_name p, tb_inventoryId = inventoryId p,
                          tb_description = description p, tb_price = price p\<rparr>,
                component_entries = map component_entry_of comps,
                photo_entries = map (\<lambda>ph. embed_image decodable (url ph)) phs,
                screenshot_section = map_option (embed_image decodable) screenshot,
                generatedAt = now\<rparr>)"

section \<open>Concrete inputs\<close>

text \<open>A product, its records and an environment, used to instantiate the theorems below.\<close>

definition example_product :: product where
  "example_product =
     \<lparr>p_id = js ''p1'', inventoryId = js ''INV-1'', p_name = js ''Widget  Pro'',
      description = js ''A widget'', price = 10, updatedAt = 0\<rparr>"

definition other_product :: product where
  "other_product =
     \<lparr>p_id = js ''p2'', inventoryId = js ''INV-2'', p_name = js ''Gadget'',
      description = [], price = 0, updatedAt = 1\<rparr>"

definition example_components :: "componentTest list" where
  "example_components =
     [\<lparr>c_id = js ''c1'', c_productId = js ''p1'', c_name = js ''Screen'',
       status = js ''working'', c_notes = js ''ok'', testedAt = Some 5\<rparr>,
      \<lparr>c_id = js ''c2'', c_productId = js ''p2'', c_name = js ''Button'',
       status = js ''not-working'', c_notes = [], testedAt = Some 6\<rparr>,
      \<lparr>c_id = js ''c3'', c_productId = js ''p1'', c_name = js ''Battery'',
       status = js ''broken'', c_notes = [], testedAt = None\<rparr>]"

definition example_photos :: "productPhoto list" where
  "example_photos =
     [\<lparr>ph_id = js ''f1'', ph_productId = js ''p1'', url = js ''data:image/png;base64,AAAA''\<rparr>,
      \<lparr>ph_id = js ''f2'', ph_productId = js ''p2'', url = js ''https://example.org/a.png''\<rparr>]"

definition example_store :: store where
  "example_store =
     \<lparr>products = [other_product, example_product], componentTests = example_components,
      productPhotos = example_photos, faultAfter = None\<rparr>"

definition example_ui :: ui_state where
  "example_ui =
     \<lparr>selectedProductId = Some (js ''p1''), showExportModal = True, showInventorySearch = True,
      inventorySearchId = js ''INV-1'', emailAddress = js ''qa@example.org'',
      isGeneratingDoc = False\<rparr>"

definition example_data :: query_data where
  "example_data =
     \<lparr>selectedProduct = Some example_product,
      components = filter (\<lambda>c. c_productId c = js ''p1'') example_components,
      photos = filter (\<lambda>ph. ph_productId ph = js ''p1'') example_photos\<rparr>"

text \<open>
  An environment in which every external call succeeds: the document is the pair of the
  numbers of components and photos it was built from, the blob is the document.
\<close>

definition example_env :: "(unit, unit, nat \<times> nat, nat \<times> nat) env" where
  "example_env =
     \<lparr>testPanelRef_current = Some (),
      html2canvas = (\<lambda>_. Inr ()),
      toDataURL = (\<lambda>_. Inr (js ''data:image/png;base64,BBBB'')),
      ext_generateWordDocument = (\<lambda>p cs phs shot. Inr (length cs, length phs)),
      Packer_toBlob = (\<lambda>d. Inr d),
      Date_now = 1700000000000,
      encodeURIComponent = (\<lambda>s. Inr s),
      toLocaleDateString = js ''11/3/2026''\<rparr>"

chapter \<open>Properties\<close>

section \<open>Whitespace runs\<close>

lemma runs_Cons_nonempty: "runs P (x # xs) \<noteq> []"
  by (simp split: list.splits)

lemma hd_runs_Cons: "hd (hd (runs P (x # xs))) = x"
  by (simp split: list.splits)

lemma concat_runs: "concat (runs P xs) = xs"
  by (induction xs) (auto split: list.splits)

lemma runs_nonempty: "r \<in> set (runs P xs) \<Longrightarrow> r \<noteq> []"
  by (induction xs arbitrary: r) (auto split: list.splits if_splits)

lemma runs_homogeneous: "r \<in> set (runs P xs) \<Longrightarrow> y \<in> set r \<Longrightarrow> P y = P (hd r)"
proof (induction xs arbitrary: r y)
  case Nil
  then show ?case by simp
next
  case (Cons x xs)
  note IH = Cons.IH and prems = Cons.prems
  show ?case
  proof (cases "runs P xs")
    case Nil
    with prems show ?thesis by simp
  next
    case (Cons q qs)
    have q: "P z = P (hd q)" if "z \<in> set q" for z
      using IH[of q z] Cons that by simp
    have qs: "P z = P (hd t)" if "t \<in> set qs" "z \<in> set t" for t z
      using IH[of t z] Cons that by simp
    show ?thesis
    proof (cases "P (hd q) = P x")
      case True
      with prems Cons have "r = x # q \<or> r \<in> set qs" by simp
      then show ?thesis using q qs True prems(2) by auto
    next
      case False
      with prems Cons have "r = [x] \<or> r = q \<or> r \<in> set qs" by auto
      then show ?thesis using q qs prems(2) by auto
    qed
  qed
qed

lemma alternating_hd:
  "P (hd r) = P (hd r') \<Longrightarrow> alternating P (r # rs) = alternating P (r' # rs)"
  by (cases rs) auto

lemma runs_alternating: "alternating P (runs P xs)"
proof (induction xs)
  case Nil
  then show ?case by simp
next
  case (Cons x xs)
  note IH = Cons.IH
  show ?case
  proof (cases "runs P xs")
    case Nil
    then show ?thesis by simp
  next
    case (Cons q qs)
    show ?thesis
    proof (cases "P (hd q) = P x")
      case True
      have "alternating P ((x # q) # qs) = alternating P (q # qs)"
        by (rule alternating_hd) (simp add: True)
      then show ?thesis using Cons IH True by simp
    next
      case False
      then show ?thesis using Cons IH by auto
    qed
  qed
qed

lemma collapse_spec_Nil: "collapse_spec [] = []"
  by (simp add: collapse_spec_def)

lemma collapse_spec_nonws:
  "\<not> isWhiteSpace c \<Longrightarrow> collapse_spec (c # cs) = c # collapse_spec cs"
  by (cases "runs isWhiteSpace cs") (auto simp: collapse_spec_def)

lemma collapse_spec_ws_ws:
  assumes c: "isWhiteSpace c" and d: "isWhiteSpace d"
  shows "collapse_spec (c # d # ds) = collapse_spec (d # ds)"
proof -
  obtain r rs where r: "runs isWhiteSpace (d # ds) = r # rs" "hd r = d"
    using runs_Cons_nonempty[of isWhiteSpace d ds] hd_runs_Cons[of isWhiteSpace d ds]
    by (cases "runs isWhiteSpace (d # ds)") auto
  have "runs isWhiteSpace (c # d # ds) = (c # r) # rs"
    using r c d by (simp del: runs.simps(2) add: runs.simps(2)[of _ c])
  then show ?thesis using r c d by (simp add: collapse_spec_def del: runs.simps)
qed

lemma collapse_spec_ws:
  "isWhiteSpace c \<Longrightarrow>
   collapse_spec (c # cs) = of_char CHR ''_'' # collapse_spec (dropWhile isWhiteSpace cs)"
proof (induction cs arbitrary: c)
  case Nil
  then show ?case by (simp add: collapse_spec_def js_def)
next
  case (Cons d ds)
  show ?case
  proof (cases "isWhiteSpace d")
    case True
    then show ?thesis using Cons.IH[of d] Cons.prems by (simp add: collapse_spec_ws_ws)
  next
    case False
    obtain r rs where r: "runs isWhiteSpace (d # ds) = r # rs" "hd r = d"
      using runs_Cons_nonempty[of isWhiteSpace d ds] hd_runs_Cons[of isWhiteSpace d ds]
      by (cases "runs isWhiteSpace (d # ds)") auto
    have "runs isWhiteSpace (c # d # ds) = [c] # r # rs"
      using r Cons.prems False by (simp del: runs.simps(2) add: runs.simps(2)[of _ c])
    then show ?thesis using r Cons.prems False
      by (simp add: collapse_spec_def js_def del: runs.simps)
  qed
qed

lemma replace_ws_eq_spec: "replace_ws s = collapse_spec s"
  by (induction s rule: replace_ws.induct)
     (simp_all add: collapse_spec_Nil collapse_spec_nonws collapse_spec_ws)

lemma underscore_not_ws: "\<not> isWhiteSpace (of_char CHR ''_'')"
  by (simp add: isWhiteSpace_def)

lemma replace_ws_no_ws: "c \<in> set (replace_ws s) \<Longrightarrow> \<not> isWhiteSpace c"
proof (induction s rule: replace_ws.induct)
  case 1
  then show ?case by simp
next
  case (2 d ds)
  show ?case
  proof (cases "isWhiteSpace d")
    case True
    with "2.prems" have "c = of_char CHR ''_'' \<or> c \<in> set (replace_ws (dropWhile isWhiteSpace ds))"
      by simp
    then show ?thesis using "2.IH"(1)[OF True] underscore_not_ws by blast
  next
    case False
    with "2.prems" have "c = d \<or> c \<in> set (replace_ws ds)"
      by simp
    then show ?thesis using "2.IH"(2)[OF False] False by blast
  qed
qed

section \<open>Decimal rendering of the timestamp\<close>

lemma unat_digit: "d < 10 \<Longrightarrow> unat (digit d) = 48 + d"
proof -
  assume d: "d < 10"
  have "unat (of_nat (48 + d) :: jschar) = (48 + d) mod 2 ^ LENGTH(16)"
    by (rule unat_of_nat)
  with d show ?thesis by (simp add: digit_def)
qed

lemma isDigit_digit: "d < 10 \<Longrightarrow> isDigit (digit d)"
  by (simp add: isDigit_def word_le_nat_alt unat_digit)

lemma digits_nonempty: "digits n \<noteq> []"
  by (subst digits.simps) simp

lemma digits_all_digit: "c \<in> set (digits n) \<Longrightarrow> isDigit c"
proof (induction n arbitrary: c rule: digits.induct)
  case (1 n)
  show ?case
  proof (cases "n < 10")
    case True
    with "1.prems" show ?thesis by (subst (asm) digits.simps) (simp add: isDigit_digit)
  next
    case False
    with "1.prems" have "c \<in> set (digits (n div 10)) \<or> c = digit (n mod 10)"
      by (subst (asm) digits.simps) auto
    then show ?thesis using "1.IH"[OF False] by (auto simp: isDigit_digit)
  qed
qed

lemma digits_value_digits: "digits_value (digits n) = n"
proof (induction n rule: digits.induct)
  case (1 n)
  show ?case
  proof (cases "n < 10")
    case True
    then show ?thesis by (subst digits.simps) (simp add: digits_value_def unat_digit)
  next
    case False
    have "digits_value (digits n) = 10 * digits_value (digits (n div 10)) + n mod 10"
      using False by (subst digits.simps) (simp add: digits_value_def unat_digit)
    then show ?thesis using "1.IH"[OF False] by simp
  qed
qed

lemma digits_inj: "digits m = digits n \<Longrightarrow> m = n"
proof -
  assume "digits m = digits n"
  then have "digits_value (digits m) = digits_value (digits n)" by (rule arg_cong)
  then show "m = n" by (simp only: digits_value_digits)
qed

lemma hd_digits_isDigit: "isDigit (hd (digits n))"
  by (rule digits_all_digit[of _ n]) (simp add: digits_nonempty)

lemma minus_not_digit: "\<not> isDigit (of_char CHR ''-'')"
  by (simp add: isDigit_def)

lemma numberToString_neg:
  "n < 0 \<Longrightarrow> numberToString n = of_char CHR ''-'' # digits (nat (- n))"
  by (simp add: numberToString_def js_def)

lemma numberToString_nonneg: "\<not> n < 0 \<Longrightarrow> numberToString n = digits (nat n)"
  by (simp add: numberToString_def)

lemma numberToString_sign_differs:
  assumes "x < 0" and "\<not> y < 0"
  shows "numberToString x \<noteq> numberToString y"
proof
  assume "numberToString x = numberToString y"
  then have "of_char CHR ''-'' # digits (nat (- x)) = digits (nat y)"
    by (simp only: numberToString_neg[OF assms(1)] numberToString_nonneg[OF assms(2)])
  then have "hd (digits (nat y)) = of_char CHR ''-''"
    by (metis list.sel(1))
  then show False
    using hd_digits_isDigit[of "nat y"] minus_not_digit by (simp only:)
qed

lemma numberToString_inj: "numberToString a = numberToString b \<Longrightarrow> a = b"
proof -
  assume eq: "numberToString a = numberToString b"
  consider "a < 0" "b < 0" | "\<not> a < 0" "\<not> b < 0" | "a < 0" "\<not> b < 0" | "\<not> a < 0" "b < 0"
    by blast
  then show ?thesis
  proof cases
    case 1
    from eq have "digits (nat (- a)) = digits (nat (- b))"
      by (simp only: numberToString_neg[OF 1(1)] numberToString_neg[OF 1(2)] list.inject)
    then have "nat (- a) = nat (- b)" by (rule digits_inj)
    with 1 show ?thesis by linarith
  next
    case 2
    from eq have "digits (nat a) = digits (nat b)"
      by (simp only: numberToString_nonneg[OF 2(1)] numberToString_nonneg[OF 2(2)])
    then have "nat a = nat b" by (rule digits_inj)
    with 2 show ?thesis by linarith
  next
    case 3
    then show ?thesis using numberToString_sign_differs[of a b] eq by blast
  next
    case 4
    then show ?thesis using numberToString_sign_differs[of b a] eq[symmetric] by blast
  qed
qed

lemma numberToString_numeric:
  "0 \<le> n \<Longrightarrow> numberToString n \<noteq> [] \<and> (\<forall>c\<in>set (numberToString n). isDigit c)"
  by (simp add: numberToString_def digits_nonempty digits_all_digit)

section \<open>Screenshot capture\<close>

lemma captureScreenshot_cases:
  "captureScreenshot env =
     (case testPanelRef_current env of
        None \<Rightarrow> (Inr None, [Called_captureScreenshot])
      | Some el \<Rightarrow>
          (case html2canvas env el of
             Inl e \<Rightarrow> (Inr None, [Called_captureScreenshot,
                                 Ui (ConsoleError (js ''Screenshot capture failed:'') e)])
           | Inr canvas \<Rightarrow>
               (case toDataURL env canvas of
                  Inl e \<Rightarrow> (Inr None, [Called_captureScreenshot,
                                      Ui (ConsoleError (js ''Screenshot capture failed:'') e)])
                | Inr dataUrl \<Rightarrow> (Inr (Some dataUrl), [Called_captureScreenshot]))))"
  by (simp add: captureScreenshot_def bind_io_def effect_io_def return_io_def lift_io_def
        try_catch_def split: option.splits sum.splits)

lemma captureScreenshot_shape:
  obtains shot ct where "captureScreenshot env = (Inr shot, Called_captureScreenshot # ct)"
    and "filter is_capture ct = []" and "filter is_build ct = []" and "downloaded ct = []"
  by (cases "captureScreenshot env")
     (auto simp: captureScreenshot_cases split: option.splits sum.splits)

lemma download_try_cases:
  assumes "captureScreenshot env = (Inr shot, t)"
  shows "download_try env p qd =
     (case ext_generateWordDocument env p (components qd) (photos qd) shot of
        Inl e \<Rightarrow> (Inl e, t @ [Called_generateWordDocument p (components qd) (photos qd) shot])
      | Inr doc \<Rightarrow>
          (case Packer_toBlob env doc of
             Inl e \<Rightarrow> (Inl e, t @ [Called_generateWordDocument p (components qd) (photos qd) shot,
                                    Called_Packer_toBlob doc])
           | Inr blob \<Rightarrow>
               (Inr (), t @ [Called_generateWordDocument p (components qd) (photos qd) shot,
                             Called_Packer_toBlob doc,
                             Clicked_download (download_filename (p_name p) (Date_now env)) blob])))"
  using assms
  by (simp add: download_try_def bind_io_def effect_io_def call_io_def split: sum.splits)

lemma downloaded_append: "downloaded (t @ u) = downloaded t @ downloaded u"
  by (induction t rule: downloaded.induct) simp_all

lemma handleDownloadWordReport_cases:
  assumes "selectedProduct qd = Some p" and "captureScreenshot env = (Inr shot, t)"
  shows "handleDownloadWordReport env qd ui =
     (ui\<lparr>isGeneratingDoc := False\<rparr>,
      case ext_generateWordDocument env p (components qd) (photos qd) shot of
        Inl e \<Rightarrow> t @ [Called_generateWordDocument p (components qd) (photos qd) shot,
                       Ui (ConsoleError (js ''Document generation failed:'') e),
                       Ui (Alert (js ''Failed to generate document. Please try again.''))]
      | Inr doc \<Rightarrow>
          (case Packer_toBlob env doc of
             Inl e \<Rightarrow> t @ [Called_generateWordDocument p (components qd) (photos qd) shot,
                            Called_Packer_toBlob doc,
                            Ui (ConsoleError (js ''Document generation failed:'') e),
                            Ui (Alert (js ''Failed to generate document. Please try again.''))]
           | Inr blob \<Rightarrow>
               t @ [Called_generateWordDocument p (components qd) (photos qd) shot,
                    Called_Packer_toBlob doc,
                    Clicked_download (download_filename (p_name p) (Date_now env)) blob]))"
  using assms(1)
  by (simp add: handleDownloadWordReport_def download_try_cases[OF assms(2)] try_catch_def
        bind_io_def effect_io_def split: sum.splits)

lemma email_try_cases:
  assumes "captureScreenshot env = (Inr shot, t)"
  shows "email_try env p qd ui =
     (case ext_generateWordDocument env p (components qd) (photos qd) shot of
        Inl e \<Rightarrow> (Inl e, t @ [Called_generateWordDocument p (components qd) (photos qd) shot])
      | Inr doc \<Rightarrow>
          (case Packer_toBlob env doc of
             Inl e \<Rightarrow> (Inl e, t @ [Called_generateWordDocument p (components qd) (photos qd) shot,
                                    Called_Packer_toBlob doc])
           | Inr blob \<Rightarrow>
               (case encodeURIComponent env (email_subject p) of
                  Inl e \<Rightarrow>
                    (Inl e, t @ [Called_generateWordDocument p (components qd) (photos qd) shot,
                                 Called_Packer_toBlob doc,
                                 Clicked_download (email_filename (p_name p)) blob])
                | Inr subject \<Rightarrow>
                    (case encodeURIComponent env (email_body p (toLocaleDateString env)) of
                       Inl e \<Rightarrow>
                         (Inl e, t @ [Called_generateWordDocument p (components qd) (photos qd) shot,
                                      Called_Packer_toBlob doc,
                                      Clicked_download (email_filename (p_name p)) blob])
                     | Inr body \<Rightarrow>
                         (Inr (ui\<lparr>showExportModal := False, emailAddress := []\<rparr>),
                          t @ [Called_generateWordDocument p (components qd) (photos qd) shot,
                               Called_Packer_toBlob doc,
                               Clicked_download (email_filename (p_name p)) blob,
                               Ui (Navigate (js ''mailto:'' @ emailAddress ui @ js ''?subject=''
                                             @ subject @ js ''&body='' @ body))])))))"
  using assms
  by (simp add: email_try_def bind_io_def effect_io_def call_io_def lift_io_def return_io_def
        split: sum.splits)

lemma handleEmailReport_trace:
  assumes "selectedProduct qd = Some p" and "emailAddress ui \<noteq> []"
    and "captureScreenshot env = (Inr shot, t)"
  shows "\<exists>rest. snd (handleEmailReport env qd ui) =
            t @ Called_generateWordDocument p (components qd) (photos qd) shot # rest
          \<and> filter is_capture rest = [] \<and> filter is_build rest = []
          \<and> (downloaded rest = [] \<or>
              (\<exists>doc blob. ext_generateWordDocument env p (components qd) (photos qd) shot = Inr doc
                 \<and> Packer_toBlob env doc = Inr blob
                 \<and> downloaded rest = [(email_filename (p_name p), blob)]))"
  using assms(1,2)
  by (simp add: handleEmailReport_def email_try_cases[OF assms(3)] try_catch_def
        bind_io_def effect_io_def return_io_def split: sum.splits)

lemma handleDownloadWordReport_trace:
  assumes "selectedProduct qd = Some p" and "captureScreenshot env = (Inr shot, t)"
  shows "\<exists>rest. snd (handleDownloadWordReport env qd ui) =
            t @ Called_generateWordDocument p (components qd) (photos qd) shot # rest
          \<and> filter is_capture rest = [] \<and> filter is_build rest = []
          \<and> (downloaded rest = [] \<or>
              (\<exists>doc blob. ext_generateWordDocument env p (components qd) (photos qd) shot = Inr doc
                 \<and> Packer_toBlob env doc = Inr blob
                 \<and> downloaded rest = [(download_filename (p_name p) (Date_now env), blob)]))"
  by (simp add: handleDownloadWordReport_cases[OF assms] split: sum.splits)

text \<open>
  C5. captureScreenshot never throws to its caller: every call returns a data URI or
  undefined. It returns undefined when the capture target is missing, when html2canvas
  throws and when the canvas cannot be read; it returns the data URI when both succeed.
\<close>

theorem captureScreenshot_never_throws:
  "(\<exists>r. fst (captureScreenshot env) = Inr r)
   \<and> (testPanelRef_current env = None \<longrightarrow> fst (captureScreenshot env) = Inr None)
   \<and> (\<forall>el e. testPanelRef_current env = Some el \<and> html2canvas env el = Inl e
          \<longrightarrow> fst (captureScreenshot env) = Inr None)
   \<and> (\<forall>el canvas e. testPanelRef_current env = Some el \<and> html2canvas env el = Inr canvas
          \<and> toDataURL env canvas = Inl e
          \<longrightarrow> fst (captureScreenshot env) = Inr None)
   \<and> (\<forall>el canvas dataUrl. testPanelRef_current env = Some el \<and> html2canvas env el = Inr canvas
          \<and> toDataURL env canvas = Inr dataUrl
          \<longrightarrow> fst (captureScreenshot env) = Inr (Some dataUrl))"
  by (auto simp: captureScreenshot_cases split: option.splits sum.splits)

theorem captureScreenshot_never_throws_witness:
  "fst (captureScreenshot (example_env\<lparr>testPanelRef_current := None\<rparr>)) = Inr None
   \<and> fst (captureScreenshot
            (example_env\<lparr>html2canvas := (\<lambda>_. Inl (Exception (js ''tainted canvas'')))\<rparr>))
       = Inr None
   \<and> fst (captureScreenshot
            (example_env\<lparr>toDataURL := (\<lambda>_. Inl (Exception (js ''SecurityError'')))\<rparr>))
       = Inr None
   \<and> fst (captureScreenshot example_env) = Inr (Some (js ''data:image/png;base64,BBBB''))"
  using captureScreenshot_never_throws[of "example_env\<lparr>testPanelRef_current := None\<rparr>"]
    captureScreenshot_never_throws
      [of "example_env\<lparr>html2canvas := (\<lambda>_. Inl (Exception (js ''tainted canvas'')))\<rparr>"]
    captureScreenshot_never_throws
      [of "example_env\<lparr>toDataURL := (\<lambda>_. Inl (Exception (js ''SecurityError'')))\<rparr>"]
    captureScreenshot_never_throws[of example_env]
  by (simp add: example_env_def)

section \<open>The two export handlers\<close>

text \<open>
  C6, as amended. An export handler whose guard passes (a product is selected and, for
  the email handler, the address is not empty) calls captureScreenshot exactly once and
  the report builder exactly once, with the selected product, the current components and
  photos, and the value the capture returned; a file it offers for download is the blob
  packed from the document that this builder call returned. A handler whose guard fails
  returns at once: no capture, no build, state unchanged.
\<close>

theorem export_handlers_capture_and_build_once:
  "(selectedProduct qd = Some p \<longrightarrow>
      (\<exists>shot. fst (captureScreenshot env) = Inr shot
         \<and> filter is_capture (snd (handleDownloadWordReport env qd ui)) = [Called_captureScreenshot]
         \<and> filter is_build (snd (handleDownloadWordReport env qd ui))
             = [Called_generateWordDocument p (components qd) (photos qd) shot]
         \<and> (\<forall>fb\<in>set (downloaded (snd (handleDownloadWordReport env qd ui))).
               \<exists>doc. ext_generateWordDocument env p (components qd) (photos qd) shot = Inr doc
                 \<and> Packer_toBlob env doc = Inr (snd fb))))
   \<and> (selectedProduct qd = None \<longrightarrow> handleDownloadWordReport env qd ui = (ui, []))
   \<and> (selectedProduct qd = Some p \<and> emailAddress ui \<noteq> [] \<longrightarrow>
      (\<exists>shot. fst (captureScreenshot env) = Inr shot
         \<and> filter is_capture (snd (handleEmailReport env qd ui)) = [Called_captureScreenshot]
         \<and> filter is_build (snd (handleEmailReport env qd ui))
             = [Called_generateWordDocument p (components qd) (photos qd) shot]
         \<and> (\<forall>fb\<in>set (downloaded (snd (handleEmailReport env qd ui))).
               \<exists>doc. ext_generateWordDocument env p (components qd) (photos qd) shot = Inr doc
                 \<and> Packer_toBlob env doc = Inr (snd fb))))
   \<and> (selectedProduct qd = None \<or> emailAddress ui = [] \<longrightarrow>
        handleEmailReport env qd ui = (ui, []))"
proof -
  obtain shot ct where cap: "captureScreenshot env = (Inr shot, Called_captureScreenshot # ct)"
    and ct: "filter is_capture ct = []" "filter is_build ct = []" "downloaded ct = []"
    by (rule captureScreenshot_shape)
  have d: ?thesis if sel: "selectedProduct qd = Some p" "emailAddress ui \<noteq> []"
  proof -
    obtain rd where rd:
      "snd (handleDownloadWordReport env qd ui) =
         (Called_captureScreenshot # ct)
         @ Called_generateWordDocument p (components qd) (photos qd) shot # rd"
      "filter is_capture rd = []" "filter is_build rd = []"
      "downloaded rd = [] \<or>
         (\<exists>doc blob. ext_generateWordDocument env p (components qd) (photos qd) shot = Inr doc
            \<and> Packer_toBlob env doc = Inr blob
            \<and> downloaded rd = [(download_filename (p_name p) (Date_now env), blob)])"
      using handleDownloadWordReport_trace[OF sel(1) cap, of ui] by blast
    obtain re where re:
      "snd (handleEmailReport env qd ui) =
         (Called_captureScreenshot # ct)
         @ Called_generateWordDocument p (components qd) (photos qd) shot # re"
      "filter is_capture re = []" "filter is_build re = []"
      "downloaded re = [] \<or>
         (\<exists>doc blob. ext_generateWordDocument env p (components qd) (photos qd) shot = Inr doc
            \<and> Packer_toBlob env doc = Inr blob
            \<and> downloaded re = [(email_filename (p_name p), blob)])"
      using handleEmailReport_trace[OF sel cap] by blast
    have "\<forall>fb\<in>set (downloaded (snd (handleDownloadWordReport env qd ui))).
            \<exists>doc. ext_generateWordDocument env p (components qd) (photos qd) shot = Inr doc
              \<and> Packer_toBlob env doc = Inr (snd fb)"
      using rd(4) by (auto simp: rd(1) downloaded_append ct)
    moreover have "\<forall>fb\<in>set (downloaded (snd (handleEmailReport env qd ui))).
            \<exists>doc. ext_generateWordDocument env p (components qd) (photos qd) shot = Inr doc
              \<and> Packer_toBlob env doc = Inr (snd fb)"
      using re(4) by (auto simp: re(1) downloaded_append ct)
    ultimately show ?thesis
      using sel cap by (simp add: rd(1,2,3) re(1,2,3) ct)
  qed
  have e: ?thesis if sel: "selectedProduct qd = Some p" "emailAddress ui = []"
  proof -
    obtain rd where rd:
      "snd (handleDownloadWordReport env qd ui) =
         (Called_captureScreenshot # ct)
         @ Called_generateWordDocument p (components qd) (photos qd) shot # rd"
      "filter is_capture rd = []" "filter is_build rd = []"
      "downloaded rd = [] \<or>
         (\<exists>doc blob. ext_generateWordDocument env p (components qd) (photos qd) shot = Inr doc
            \<and> Packer_toBlob env doc = Inr blob
            \<and> downloaded rd = [(download_filename (p_name p) (Date_now env), blob)])"
      using handleDownloadWordReport_trace[OF sel(1) cap, of ui] by blast
    have "\<forall>fb\<in>set (downloaded (snd (handleDownloadWordReport env qd ui))).
            \<exists>doc. ext_generateWordDocument env p (components qd) (photos qd) shot = Inr doc
              \<and> Packer_toBlob env doc = Inr (snd fb)"
      using rd(4) by (auto simp: rd(1) downloaded_append ct)
    then show ?thesis
      using sel cap by (simp add: rd(1,2,3) ct handleEmailReport_def)
  qed
  have n: ?thesis if "selectedProduct qd \<noteq> Some p"
    using that
    by (auto simp: handleDownloadWordReport_def handleEmailReport_def split: option.splits)
  from d e n show ?thesis by blast
qed

theorem export_handlers_capture_and_build_once_witness:
  "selectedProduct example_data = Some example_product \<and> emailAddress example_ui \<noteq> []
   \<and> filter is_capture (snd (handleDownloadWordReport example_env example_data example_ui))
       = [Called_captureScreenshot]
   \<and> filter is_build (snd (handleEmailReport example_env example_data example_ui))
       = [Called_generateWordDocument example_product (components example_data)
            (photos example_data) (Some (js ''data:image/png;base64,BBBB''))]
   \<and> downloaded (snd (handleEmailReport example_env example_data example_ui))
       = [(email_filename (p_name example_product), (2, 1))]
   \<and> handleEmailReport example_env example_data (example_ui\<lparr>emailAddress := []\<rparr>)
       = (example_ui\<lparr>emailAddress := []\<rparr>, [])
   \<and> handleDownloadWordReport example_env (example_data\<lparr>selectedProduct := None\<rparr>) example_ui
       = (example_ui, [])"
proof -
  have cap: "captureScreenshot example_env
      = (Inr (Some (js ''data:image/png;base64,BBBB'')), [Called_captureScreenshot])"
    by (simp add: captureScreenshot_cases example_env_def)
  have sel: "selectedProduct example_data = Some example_product"
    by (simp add: example_data_def)
  have addr: "emailAddress example_ui \<noteq> []"
    by (simp add: example_ui_def js_def)
  have len: "length (components example_data) = 2" "length (photos example_data) = 1"
    by (simp_all add: example_data_def example_components_def example_photos_def js_def)
  have dl: "snd (handleDownloadWordReport example_env example_data example_ui) =
      [Called_captureScreenshot,
       Called_generateWordDocument example_product (components example_data)
         (photos example_data) (Some (js ''data:image/png;base64,BBBB'')),
       Called_Packer_toBlob (2, 1),
       Clicked_download (download_filename (p_name example_product) (Date_now example_env)) (2, 1)]"
    by (simp add: handleDownloadWordReport_cases[OF sel cap] len) (simp add: example_env_def len)
  have "downloaded (snd (handleEmailReport example_env example_data example_ui))
       = [(email_filename (p_name example_product), (2, 1))]
     \<and> filter is_build (snd (handleEmailReport example_env example_data example_ui))
       = [Called_generateWordDocument example_product (components example_data)
            (photos example_data) (Some (js ''data:image/png;base64,BBBB''))]"
    using sel addr
    by (simp add: handleEmailReport_def email_try_cases[OF cap] try_catch_def)
       (simp add: example_env_def len)
  then show ?thesis
    using export_handlers_capture_and_build_once
            [of example_data example_product example_env example_ui]
      export_handlers_capture_and_build_once
            [of example_data example_product example_env "example_ui\<lparr>emailAddress := []\<rparr>"]
      export_handlers_capture_and_build_once
            [of "example_data\<lparr>selectedProduct := None\<rparr>" example_product example_env example_ui]
      sel addr dl
    by simp
qed

theorem export_guard_counterexample:
  "filter is_capture
     (snd (handleEmailReport example_env example_data (example_ui\<lparr>emailAddress := []\<rparr>))) = []
   \<and> filter is_build
     (snd (handleEmailReport example_env example_data (example_ui\<lparr>emailAddress := []\<rparr>))) = []
   \<and> selectedProduct example_data = Some example_product"
  by (simp add: handleEmailReport_def example_data_def)

section \<open>File names\<close>

text \<open>
  C2. The file name of the download path is the product name with every maximal run of
  whitespace replaced by one underscore, then \<^verbatim>\<open>_test_report_\<close>, the decimal rendering
  of the timestamp and \<^verbatim>\<open>.docx\<close>. The collapsed name holds no whitespace; the token is
  a non-empty string of digits for a timestamp that is not negative; two timestamps give
  the same name only if they are equal; \<^verbatim>\<open>Widget  Pro\<close> gives
  \<^verbatim>\<open>Widget_Pro_test_report_<timestamp>.docx\<close>; and every file the download handler
  offers carries this name for the selected product and the clock's value.
\<close>

theorem download_filename_collapses_whitespace:
  "download_filename nm now
     = collapse_spec nm @ js ''_test_report_'' @ numberToString now @ js ''.docx''
   \<and> (\<forall>c\<in>set (collapse_spec nm). \<not> isWhiteSpace c)
   \<and> (0 \<le> now \<longrightarrow> numberToString now \<noteq> [] \<and> (\<forall>c\<in>set (numberToString now). isDigit c))
   \<and> (download_filename nm now = download_filename nm now' \<longleftrightarrow> now = now')
   \<and> download_filename (js ''Widget  Pro'') now
       = js ''Widget_Pro_test_report_'' @ numberToString now @ js ''.docx''
   \<and> (\<forall>fb\<in>set (downloaded (snd (handleDownloadWordReport env qd ui))).
         \<exists>p. selectedProduct qd = Some p
           \<and> fst fb = download_filename (p_name p) (Date_now env))"
proof -
  have shape: "download_filename nm now
     = collapse_spec nm @ js ''_test_report_'' @ numberToString now @ js ''.docx''"
    by (simp add: download_filename_def replace_ws_eq_spec)
  have nows: "\<forall>c\<in>set (collapse_spec nm). \<not> isWhiteSpace c"
    using replace_ws_no_ws[of _ nm] by (simp add: replace_ws_eq_spec)
  have numeric: "0 \<le> now \<longrightarrow> numberToString now \<noteq> [] \<and> (\<forall>c\<in>set (numberToString now). isDigit c)"
    using numberToString_numeric[of now] by blast
  have uniq: "download_filename nm now = download_filename nm now' \<longleftrightarrow> now = now'"
    by (auto simp: download_filename_def dest: numberToString_inj)
  have widget: "download_filename (js ''Widget  Pro'') now
       = js ''Widget_Pro_test_report_'' @ numberToString now @ js ''.docx''"
    by (simp add: download_filename_def js_def isWhiteSpace_def)
  have handler: "\<forall>fb\<in>set (downloaded (snd (handleDownloadWordReport env qd ui))).
         \<exists>p. selectedProduct qd = Some p
           \<and> fst fb = download_filename (p_name p) (Date_now env)"
  proof (cases "selectedProduct qd")
    case None
    then show ?thesis by (simp add: handleDownloadWordReport_def)
  next
    case (Some p)
    obtain shot ct where cap: "captureScreenshot env = (Inr shot, Called_captureScreenshot # ct)"
      and ct: "downloaded ct = []"
      by (rule captureScreenshot_shape)
    show ?thesis
      using Some
      by (auto simp: handleDownloadWordReport_cases[OF Some cap] downloaded_append ct
            split: sum.splits)
  qed
  from shape nows numeric uniq widget handler show ?thesis by blast
qed

theorem download_filename_collapses_whitespace_witness:
  "(0::int) \<le> 1700000000000
   \<and> download_filename (js ''Widget  Pro'') 1700000000000
       = js ''Widget_Pro_test_report_1700000000000.docx''
   \<and> list_all isDigit (numberToString 1700000000000)
   \<and> downloaded (snd (handleDownloadWordReport example_env example_data example_ui))
       = [(js ''Widget_Pro_test_report_1700000000000.docx'', (2, 1))]"
proof -
  have cap: "captureScreenshot example_env
      = (Inr (Some (js ''data:image/png;base64,BBBB'')), [Called_captureScreenshot])"
    by (simp add: captureScreenshot_cases example_env_def)
  have sel: "selectedProduct example_data = Some example_product"
    by (simp add: example_data_def)
  have len: "length (components example_data) = 2" "length (photos example_data) = 1"
    by (simp_all add: example_data_def example_components_def example_photos_def js_def)
  have num: "numberToString 1700000000000 = js ''1700000000000''"
    by (simp add: numberToString_def digits.simps digit_def js_def)
  have "download_filename (js ''Widget  Pro'') 1700000000000
       = js ''Widget_Pro_test_report_'' @ numberToString 1700000000000 @ js ''.docx''"
    using download_filename_collapses_whitespace
            [of "js ''Widget  Pro''" 1700000000000 1700000000000 example_env example_data example_ui]
    by blast
  then have nm: "download_filename (js ''Widget  Pro'') 1700000000000
       = js ''Widget_Pro_test_report_1700000000000.docx''"
    by (simp add: num js_def)
  have dl: "downloaded (snd (handleDownloadWordReport example_env example_data example_ui))
       = [(download_filename (js ''Widget  Pro'') 1700000000000, (2, 1))]"
    by (simp add: handleDownloadWordReport_cases[OF sel cap] len)
       (simp add: example_env_def example_product_def len)
  have "\<forall>c\<in>set (numberToString 1700000000000). isDigit c"
    using download_filename_collapses_whitespace
            [of "js ''Widget  Pro''" 1700000000000 1700000000000 example_env example_data example_ui]
    by simp
  then have "list_all isDigit (numberToString 1700000000000)"
    by (simp only: list_all_iff)
  then show ?thesis
    by (simp only: nm dl) simp
qed

text \<open>
  C3, as amended. The file name of the email path omits the uniqueness token: it is the
  whitespace-collapsed product name followed by \<^verbatim>\<open>_test_report.docx\<close>, the same at
  every timestamp, so repeated email exports of one product in a session share one file
  name. The name either handler gives a file is the function \<open>suggested_filename\<close> of
  the purpose, the product name and the clock, and of nothing else.
\<close>

theorem email_filename_omits_token:
  "email_filename nm = collapse_spec nm @ js ''_test_report.docx''
   \<and> suggested_filename Email nm now = suggested_filename Email nm now'
   \<and> (\<forall>fb\<in>set (downloaded (snd (handleEmailReport env qd ui))).
         \<exists>p. selectedProduct qd = Some p
           \<and> fst fb = suggested_filename Email (p_name p) (Date_now env))
   \<and> (\<forall>fb\<in>set (downloaded (snd (handleDownloadWordReport env qd ui))).
         \<exists>p. selectedProduct qd = Some p
           \<and> fst fb = suggested_filename Download (p_name p) (Date_now env))"
proof -
  obtain shot ct where cap: "captureScreenshot env = (Inr shot, Called_captureScreenshot # ct)"
    and ct: "downloaded ct = []"
    by (rule captureScreenshot_shape)
  have email: "\<forall>fb\<in>set (downloaded (snd (handleEmailReport env qd ui))).
         \<exists>p. selectedProduct qd = Some p
           \<and> fst fb = suggested_filename Email (p_name p) (Date_now env)"
  proof (cases "selectedProduct qd")
    case None
    then show ?thesis by (simp add: handleEmailReport_def)
  next
    case (Some p)
    show ?thesis
    proof (cases "emailAddress ui = []")
      case True
      with Some show ?thesis by (simp add: handleEmailReport_def)
    next
      case False
      obtain rest where rest:
        "snd (handleEmailReport env qd ui) =
           (Called_captureScreenshot # ct)
           @ Called_generateWordDocument p (components qd) (photos qd) shot # rest"
        "downloaded rest = [] \<or>
           (\<exists>doc blob. ext_generateWordDocument env p (components qd) (photos qd) shot = Inr doc
              \<and> Packer_toBlob env doc = Inr blob
              \<and> downloaded rest = [(email_filename (p_name p), blob)])"
        using handleEmailReport_trace[OF Some False cap] by blast
      show ?thesis
        using rest(2) Some
        by (auto simp: rest(1) downloaded_append ct suggested_filename_def)
    qed
  qed
  have download: "\<forall>fb\<in>set (downloaded (snd (handleDownloadWordReport env qd ui))).
         \<exists>p. selectedProduct qd = Some p
           \<and> fst fb = suggested_filename Download (p_name p) (Date_now env)"
  proof (cases "selectedProduct qd")
    case None
    then show ?thesis by (simp add: handleDownloadWordReport_def)
  next
    case (Some p)
    show ?thesis
      using Some
      by (auto simp: handleDownloadWordReport_cases[OF Some cap] downloaded_append ct
            suggested_filename_def split: sum.splits)
  qed
  have "email_filename nm = collapse_spec nm @ js ''_test_report.docx''"
    by (simp add: email_filename_def replace_ws_eq_spec)
  moreover have "suggested_filename Email nm now = suggested_filename Email nm now'"
    by (simp add: suggested_filename_def)
  ultimately show ?thesis using email download by blast
qed

lemma example_email_download:
  "downloaded (snd (handleEmailReport (example_env\<lparr>Date_now := t\<rparr>) example_data example_ui))
     = [(email_filename (js ''Widget  Pro''), (2, 1))]"
proof -
  have cap: "captureScreenshot (example_env\<lparr>Date_now := t\<rparr>)
      = (Inr (Some (js ''data:image/png;base64,BBBB'')), [Called_captureScreenshot])"
    by (simp add: captureScreenshot_cases example_env_def)
  have sel: "selectedProduct example_data = Some example_product"
    by (simp add: example_data_def)
  have addr: "emailAddress example_ui \<noteq> []"
    by (simp add: example_ui_def js_def)
  have len: "length (components example_data) = 2" "length (photos example_data) = 1"
    by (simp_all add: example_data_def example_components_def example_photos_def js_def)
  show ?thesis
    using sel addr
    by (simp add: handleEmailReport_def email_try_cases[OF cap] try_catch_def)
       (simp add: example_env_def example_product_def len)
qed

lemma email_filename_widget: "email_filename (js ''Widget  Pro'') = js ''Widget_Pro_test_report.docx''"
  by (simp add: email_filename_def js_def isWhiteSpace_def)

theorem email_filename_omits_token_witness:
  "email_filename (js ''Widget  Pro'') = js ''Widget_Pro_test_report.docx''
   \<and> downloaded (snd (handleEmailReport example_env example_data example_ui))
       = [(suggested_filename Email (js ''Widget  Pro'') 1700000000000, (2, 1))]
   \<and> suggested_filename Email (js ''Widget  Pro'') 1700000000000
       = suggested_filename Email (js ''Widget  Pro'') 1700000005000"
  using email_filename_omits_token
          [of "js ''Widget  Pro''" 1700000000000 1700000005000 example_env example_data example_ui]
    example_email_download[of "Date_now example_env"]
  by (simp add: email_filename_widget suggested_filename_def)

theorem email_filename_collision_counterexample:
  "Date_now example_env \<noteq> Date_now (example_env\<lparr>Date_now := 1700000005000\<rparr>)
   \<and> map fst (downloaded (snd (handleEmailReport example_env example_data example_ui)))
       = [js ''Widget_Pro_test_report.docx'']
   \<and> map fst (downloaded (snd (handleEmailReport (example_env\<lparr>Date_now := 1700000005000\<rparr>)
                                  example_data example_ui)))
       = [js ''Widget_Pro_test_report.docx'']"
  using example_email_download[of "Date_now example_env"] example_email_download[of 1700000005000]
  by (simp add: email_filename_widget) (simp add: example_env_def)

section \<open>Status icons\<close>

text \<open>
  C4. getStatusIcon gives three different elements for \<^verbatim>\<open>working\<close>, \<^verbatim>\<open>not-working\<close>
  and \<^verbatim>\<open>untested\<close>, and for every other status string the element it gives for
  \<^verbatim>\<open>untested\<close>. It is total: no status makes it fail.
\<close>

theorem getStatusIcon_markers:
  "getStatusIcon (js ''working'') \<noteq> getStatusIcon (js ''not-working'')
   \<and> getStatusIcon (js ''working'') \<noteq> getStatusIcon (js ''untested'')
   \<and> getStatusIcon (js ''not-working'') \<noteq> getStatusIcon (js ''untested'')
   \<and> el_icon (getStatusIcon (js ''working'')) = CheckCircle
   \<and> el_icon (getStatusIcon (js ''not-working'')) = XCircle
   \<and> el_icon (getStatusIcon (js ''untested'')) = Circle
   \<and> (st \<noteq> js ''working'' \<and> st \<noteq> js ''not-working''
        \<longrightarrow> getStatusIcon st = getStatusIcon (js ''untested''))"
  by (simp add: getStatusIcon_def js_def)

theorem getStatusIcon_markers_witness:
  "js ''broken'' \<noteq> js ''working'' \<and> js ''broken'' \<noteq> js ''not-working''
   \<and> js ''broken'' \<noteq> js ''untested''
   \<and> getStatusIcon (js ''broken'') = getStatusIcon (js ''untested'')
   \<and> getStatusIcon (js ''broken'')
       = \<lparr>el_icon = Circle, className = js ''w-5 h-5 text-gray-400''\<rparr>"
  using getStatusIcon_markers[of "js ''broken''"]
  by (simp add: getStatusIcon_def js_def)

section \<open>Statistics of the product list\<close>

lemma components_hook_owner:
  "c \<in> set (components_hook pending s ui) \<Longrightarrow> c_productId c = or_empty (selectedProductId ui)"
  by (auto simp: components_hook_def useQuery_ComponentTest_def split: if_splits)

lemma filter_other_owner:
  "pid \<noteq> or_empty (selectedProductId ui) \<Longrightarrow>
   filter (\<lambda>c. c_productId c = pid) (components_hook pending s ui) = []"
  by (auto simp: filter_empty_conv dest: components_hook_owner)

text \<open>
  C9. The components list of the render holds only records whose owner is the key of the
  hook, \<^verbatim>\<open>selectedProductId || ''\<close>. For a product id that differs from this key,
  getStatusStats returns zero in all four fields and the pass rate of the product list
  is zero, whatever the store holds for that product. So it is for every id other than
  the selected one, and for every non-empty id when nothing is selected.
\<close>

theorem getStatusStats_zero_for_unselected:
  "(\<forall>c\<in>set (components_hook pending s ui). c_productId c = or_empty (selectedProductId ui))
   \<and> (pid \<noteq> or_empty (selectedProductId ui) \<longrightarrow>
        getStatusStats (components_hook pending s ui) pid
          = \<lparr>working = 0, notWorking = 0, untested = 0, total_count = 0\<rparr>
        \<and> passRate round_percent (getStatusStats (components_hook pending s ui) pid) = 0)
   \<and> (selectedProductId ui = Some sel \<and> pid \<noteq> sel \<longrightarrow>
        getStatusStats (components_hook pending s ui) pid
          = \<lparr>working = 0, notWorking = 0, untested = 0, total_count = 0\<rparr>)
   \<and> (selectedProductId ui = None \<and> pid \<noteq> [] \<longrightarrow>
        getStatusStats (components_hook pending s ui) pid
          = \<lparr>working = 0, notWorking = 0, untested = 0, total_count = 0\<rparr>)"
proof -
  have zero: "getStatusStats (components_hook pending s ui) pid
          = \<lparr>working = 0, notWorking = 0, untested = 0, total_count = 0\<rparr>
        \<and> passRate round_percent (getStatusStats (components_hook pending s ui) pid) = 0"
    if "pid \<noteq> or_empty (selectedProductId ui)"
    using filter_other_owner[OF that, of pending s]
    by (simp add: getStatusStats_def passRate_def)
  have some: "pid \<noteq> or_empty (selectedProductId ui)" if "selectedProductId ui = Some sel" "pid \<noteq> sel"
    using that by (simp add: or_empty_def)
  have none: "pid \<noteq> or_empty (selectedProductId ui)" if "selectedProductId ui = None" "pid \<noteq> []"
    using that by (simp add: or_empty_def)
  show ?thesis
    using zero some none components_hook_owner[of _ pending s ui] by blast
qed

theorem getStatusStats_zero_for_unselected_witness:
  "selectedProductId example_ui = Some (js ''p1'') \<and> js ''p2'' \<noteq> js ''p1''
   \<and> getStatusStats (components_hook False example_store example_ui) (js ''p2'')
       = \<lparr>working = 0, notWorking = 0, untested = 0, total_count = 0\<rparr>
   \<and> passRate (\<lambda>w t. 100) (getStatusStats (components_hook False example_store example_ui) (js ''p2'')) = 0
   \<and> getStatusStats (componentTests example_store) (js ''p2'')
       = \<lparr>working = 0, notWorking = 1, untested = 0, total_count = 1\<rparr>
   \<and> getStatusStats (components_hook False example_store (example_ui\<lparr>selectedProductId := None\<rparr>))
        (js ''p2'')
       = \<lparr>working = 0, notWorking = 0, untested = 0, total_count = 0\<rparr>"
proof -
  have sel: "selectedProductId example_ui = Some (js ''p1'')"
    by (simp add: example_ui_def)
  have ne: "js ''p2'' \<noteq> js ''p1''" "js ''p2'' \<noteq> []"
    by (simp_all add: js_def)
  have key: "js ''p2'' \<noteq> or_empty (selectedProductId example_ui)"
    using sel ne by (simp add: or_empty_def)
  have actual: "getStatusStats (componentTests example_store) (js ''p2'')
       = \<lparr>working = 0, notWorking = 1, untested = 0, total_count = 1\<rparr>"
    by (simp add: getStatusStats_def example_store_def example_components_def js_def)
  show ?thesis
    using getStatusStats_zero_for_unselected
            [of False example_store example_ui "js ''p2''" "\<lambda>w t. 100" "js ''p1''"]
      getStatusStats_zero_for_unselected
            [of False example_store "example_ui\<lparr>selectedProductId := None\<rparr>" "js ''p2''"
                "\<lambda>w t. 100" "js ''p1''"]
      sel ne key actual
    by (simp add: passRate_def)
qed

section \<open>Search by inventory id\<close>

lemma queryProducts_result:
  "faultAfter s \<noteq> Some 0 \<Longrightarrow>
   \<exists>s'. queryProducts x s = (Inr (filter (\<lambda>p. inventoryId p = x) (products s)), s')
        \<and> products s' = products s \<and> componentTests s' = componentTests s
        \<and> productPhotos s' = productPhotos s"
  by (auto simp: queryProducts_def request_def split: option.splits nat.splits)

lemma queryProducts_rejected:
  "faultAfter s = Some 0 \<Longrightarrow>
   queryProducts x s = (Inl (Exception (js ''request rejected'')), s)"
  by (simp add: queryProducts_def request_def)

text \<open>
  C10. With an empty search string handleSearchByInventoryId does nothing: state and
  store unchanged, no effect, no query. With a non-empty search string whose query is
  answered: if some product of the store has this inventory id, the first of them in
  the query result becomes the selection (and the modal closes and the search string is
  cleared); if none has, the whole UI state, so the selection and the open modal, is
  unchanged and the only effect is the alert. The store's records are unchanged in
  every case; a rejected query is logged and changes nothing.
\<close>

theorem handleSearchByInventoryId_selects_first_match:
  "(inventorySearchId ui = [] \<longrightarrow> handleSearchByInventoryId ui s = (ui, s, []))
   \<and> (inventorySearchId ui \<noteq> [] \<and> faultAfter s \<noteq> Some 0
        \<and> filter (\<lambda>p. inventoryId p = inventorySearchId ui) (products s) \<noteq> [] \<longrightarrow>
        fst (handleSearchByInventoryId ui s)
          = ui\<lparr>selectedProductId :=
                  Some (p_id (hd (filter (\<lambda>p. inventoryId p = inventorySearchId ui) (products s)))),
                showInventorySearch := False, inventorySearchId := []\<rparr>
        \<and> snd (snd (handleSearchByInventoryId ui s)) = [])
   \<and> (inventorySearchId ui \<noteq> [] \<and> faultAfter s \<noteq> Some 0
        \<and> filter (\<lambda>p. inventoryId p = inventorySearchId ui) (products s) = [] \<longrightarrow>
        fst (handleSearchByInventoryId ui s) = ui
        \<and> snd (snd (handleSearchByInventoryId ui s))
            = [Alert (js ''Product not found with this Inventory ID'')])
   \<and> (inventorySearchId ui \<noteq> [] \<and> faultAfter s = Some 0 \<longrightarrow>
        handleSearchByInventoryId ui s
          = (ui, s, [ConsoleError (js ''Failed to search product:'')
                       (Exception (js ''request rejected''))]))
   \<and> products (fst (snd (handleSearchByInventoryId ui s))) = products s
   \<and> componentTests (fst (snd (handleSearchByInventoryId ui s))) = componentTests s
   \<and> productPhotos (fst (snd (handleSearchByInventoryId ui s))) = productPhotos s"
proof (cases "inventorySearchId ui = []")
  case True
  then show ?thesis by (simp add: handleSearchByInventoryId_def)
next
  case False
  show ?thesis
  proof (cases "faultAfter s = Some 0")
    case True
    with False show ?thesis
      by (simp add: handleSearchByInventoryId_def queryProducts_rejected)
  next
    case ok: False
    obtain s' where q:
      "queryProducts (inventorySearchId ui) s
         = (Inr (filter (\<lambda>p. inventoryId p = inventorySearchId ui) (products s)), s')"
      "products s' = products s" "componentTests s' = componentTests s"
      "productPhotos s' = productPhotos s"
      using queryProducts_result[OF ok] by blast
    show ?thesis
      using False ok
      by (cases "filter (\<lambda>p. inventoryId p = inventorySearchId ui) (products s)")
         (simp_all add: handleSearchByInventoryId_def q)
  qed
qed

theorem handleSearchByInventoryId_selects_first_match_witness:
  "inventorySearchId example_ui \<noteq> [] \<and> faultAfter example_store \<noteq> Some 0
   \<and> handleSearchByInventoryId (example_ui\<lparr>selectedProductId := Some (js ''p2'')\<rparr>) example_store
       = (example_ui\<lparr>selectedProductId := Some (js ''p1''), showInventorySearch := False,
                     inventorySearchId := []\<rparr>, example_store, [])
   \<and> handleSearchByInventoryId (example_ui\<lparr>inventorySearchId := js ''INV-9''\<rparr>) example_store
       = (example_ui\<lparr>inventorySearchId := js ''INV-9''\<rparr>, example_store,
          [Alert (js ''Product not found with this Inventory ID'')])
   \<and> handleSearchByInventoryId (example_ui\<lparr>inventorySearchId := []\<rparr>) example_store
       = (example_ui\<lparr>inventorySearchId := []\<rparr>, example_store, [])
   \<and> handleSearchByInventoryId example_ui (example_store\<lparr>faultAfter := Some 0\<rparr>)
       = (example_ui, example_store\<lparr>faultAfter := Some 0\<rparr>,
          [ConsoleError (js ''Failed to search product:'') (Exception (js ''request rejected''))])"
proof -
  have m1: "filter (\<lambda>p. inventoryId p = js ''INV-1'') (products example_store) = [example_product]"
    by (simp add: example_store_def example_product_def other_product_def js_def)
  have m9: "filter (\<lambda>p. inventoryId p = js ''INV-9'') (products example_store) = []"
    by (simp add: example_store_def example_product_def other_product_def js_def)
  have ne: "js ''INV-1'' \<noteq> []" "js ''INV-9'' \<noteq> []"
    by (simp_all add: js_def)
  have q: "queryProducts x example_store
      = (Inr (filter (\<lambda>p. inventoryId p = x) (products example_store)), example_store)" for x
    by (simp add: queryProducts_def request_def example_store_def)
  have sid: "inventorySearchId example_ui = js ''INV-1''"
    by (simp add: example_ui_def)
  have r1: "handleSearchByInventoryId (example_ui\<lparr>selectedProductId := Some (js ''p2'')\<rparr>) example_store
       = (example_ui\<lparr>selectedProductId := Some (js ''p1''), showInventorySearch := False,
                     inventorySearchId := []\<rparr>, example_store, [])"
    by (simp add: handleSearchByInventoryId_def sid ne q m1 example_product_def)
  have r2: "handleSearchByInventoryId (example_ui\<lparr>inventorySearchId := js ''INV-9''\<rparr>) example_store
       = (example_ui\<lparr>inventorySearchId := js ''INV-9''\<rparr>, example_store,
          [Alert (js ''Product not found with this Inventory ID'')])"
    by (simp add: handleSearchByInventoryId_def ne q m9)
  have r3: "handleSearchByInventoryId (example_ui\<lparr>inventorySearchId := []\<rparr>) example_store
       = (example_ui\<lparr>inventorySearchId := []\<rparr>, example_store, [])"
    using handleSearchByInventoryId_selects_first_match
            [of "example_ui\<lparr>inventorySearchId := []\<rparr>" example_store]
    by simp
  have r4: "handleSearchByInventoryId example_ui (example_store\<lparr>faultAfter := Some 0\<rparr>)
       = (example_ui, example_store\<lparr>faultAfter := Some 0\<rparr>,
          [ConsoleError (js ''Failed to search product:'') (Exception (js ''request rejected''))])"
    using handleSearchByInventoryId_selects_first_match
            [of example_ui "example_store\<lparr>faultAfter := Some 0\<rparr>"]
    by (simp add: sid ne)
  have ok: "faultAfter example_store \<noteq> Some 0"
    by (simp add: example_store_def)
  have "inventorySearchId example_ui \<noteq> []"
    by (simp add: sid ne)
  with ok r1 r2 r3 r4 show ?thesis
    by blast
qed

section \<open>Deleting a product\<close>

lemma request_Inr:
  "request f s = (Inr x, s') \<Longrightarrow> \<exists>k. f (s\<lparr>faultAfter := k\<rparr>) = (x, s')"
proof (cases "faultAfter s")
  case None
  assume "request f s = (Inr x, s')"
  with None have "f s = (x, s')"
    by (simp add: request_def split: prod.splits)
  moreover from None have "s\<lparr>faultAfter := None\<rparr> = s" by simp
  ultimately show ?thesis by metis
next
  case (Some n)
  assume "request f s = (Inr x, s')"
  with Some show ?thesis
    by (cases n) (auto simp: request_def split: prod.splits)
qed

lemma request_no_fault:
  "faultAfter s = None \<Longrightarrow> request f s = (Inr (fst (f s)), snd (f s))"
  by (simp add: request_def split: prod.splits)

lemma updateComponent_Inr:
  assumes "updateComponent cid g s = (Inr x, s')"
  shows "componentTests s' = map (\<lambda>c. if c_id c = cid then g c else c) (componentTests s)"
    and "products s' = products s" and "productPhotos s' = productPhotos s"
  using request_Inr[OF assms[unfolded updateComponent_def]] by auto

lemma deletePhoto_Inr:
  assumes "deletePhoto phid s = (Inr x, s')"
  shows "productPhotos s' = filter (\<lambda>ph. ph_id ph \<noteq> phid) (productPhotos s)"
    and "products s' = products s" and "componentTests s' = componentTests s"
  using request_Inr[OF assms[unfolded deletePhoto_def]] by auto

lemma deleteProduct_Inr:
  assumes "deleteProduct pid s = (Inr x, s')"
  shows "products s' = filter (\<lambda>p. p_id p \<noteq> pid) (products s)"
    and "componentTests s' = componentTests s" and "productPhotos s' = productPhotos s"
  using request_Inr[OF assms[unfolded deleteProduct_def]] by auto

lemma queryComponents_Inr:
  assumes "queryComponents pid s = (Inr l, s')"
  shows "l = filter (\<lambda>c. c_productId c = pid) (componentTests s)"
    and "products s' = products s" and "componentTests s' = componentTests s"
    and "productPhotos s' = productPhotos s"
  using request_Inr[OF assms[unfolded queryComponents_def]] by auto

lemma queryPhotos_Inr:
  assumes "queryPhotos pid s = (Inr l, s')"
  shows "l = filter (\<lambda>ph. ph_productId ph = pid) (productPhotos s)"
    and "products s' = products s" and "componentTests s' = componentTests s"
    and "productPhotos s' = productPhotos s"
  using request_Inr[OF assms[unfolded queryPhotos_def]] by auto

lemma bind_rq_Inr:
  assumes "bind_rq m f s = (Inr y, s')"
  obtains x s1 where "m s = (Inr x, s1)" and "f x s1 = (Inr y, s')"
  using assms by (auto simp: bind_rq_def split: prod.splits sum.splits)

lemma detach_components_Inr:
  "detach_components l s = (Inr x, s') \<Longrightarrow>
   componentTests s'
     = map (\<lambda>c. if c_id c \<in> set (map c_id l) then c\<lparr>c_productId := []\<rparr> else c) (componentTests s)
   \<and> products s' = products s \<and> productPhotos s' = productPhotos s"
proof (induction l arbitrary: s)
  case Nil
  then show ?case by simp
next
  case (Cons a l)
  from Cons.prems obtain u s1 where
    u: "updateComponent (c_id a) (\<lambda>c. c\<lparr>c_productId := []\<rparr>) s = (Inr u, s1)"
    and r: "detach_components l s1 = (Inr x, s')"
    by (auto elim: bind_rq_Inr)
  note step = updateComponent_Inr[OF u]
  note rest = Cons.IH[OF r]
  have "componentTests s'
     = map (\<lambda>c. if c_id c \<in> set (map c_id (a # l)) then c\<lparr>c_productId := []\<rparr> else c)
         (componentTests s)"
    using rest step(1) by (auto simp: o_def)
  then show ?case using rest step by simp
qed

lemma delete_photos_Inr:
  "delete_photos l s = (Inr x, s') \<Longrightarrow>
   productPhotos s' = filter (\<lambda>ph. ph_id ph \<notin> set (map ph_id l)) (productPhotos s)
   \<and> products s' = products s \<and> componentTests s' = componentTests s"
proof (induction l arbitrary: s)
  case Nil
  then show ?case by simp
next
  case (Cons a l)
  from Cons.prems obtain u s1 where
    u: "deletePhoto (ph_id a) s = (Inr u, s1)"
    and r: "delete_photos l s1 = (Inr x, s')"
    by (auto elim: bind_rq_Inr)
  note step = deletePhoto_Inr[OF u]
  note rest = Cons.IH[OF r]
  have "productPhotos s' = filter (\<lambda>ph. ph_id ph \<notin> set (map ph_id (a # l))) (productPhotos s)"
    using rest step(1) by (auto intro: filter_cong)
  then show ?case using rest step by simp
qed

lemma delete_try_Inr:
  assumes "delete_try pid s = (Inr x, s')"
  shows "componentTests s'
     = map (\<lambda>c. if c_id c \<in> set (map c_id (filter (\<lambda>c. c_productId c = pid) (componentTests s)))
                then c\<lparr>c_productId := []\<rparr> else c) (componentTests s)"
    and "productPhotos s'
     = filter (\<lambda>ph. ph_id ph \<notin> set (map ph_id (filter (\<lambda>ph. ph_productId ph = pid) (productPhotos s))))
         (productPhotos s)"
    and "products s' = filter (\<lambda>p. p_id p \<noteq> pid) (products s)"
proof -
  from assms obtain l1 s1 where q1: "queryComponents pid s = (Inr l1, s1)"
    and r1: "bind_rq (detach_components l1) (\<lambda>_.
              bind_rq (queryPhotos pid) (\<lambda>productPhotos.
              bind_rq (delete_photos productPhotos) (\<lambda>_. deleteProduct pid))) s1 = (Inr x, s')"
    unfolding delete_try_def by (rule bind_rq_Inr)
  from r1 obtain u2 s2 where q2: "detach_components l1 s1 = (Inr u2, s2)"
    and r2: "bind_rq (queryPhotos pid) (\<lambda>productPhotos.
              bind_rq (delete_photos productPhotos) (\<lambda>_. deleteProduct pid)) s2 = (Inr x, s')"
    by (rule bind_rq_Inr)
  from r2 obtain l3 s3 where q3: "queryPhotos pid s2 = (Inr l3, s3)"
    and r3: "bind_rq (delete_photos l3) (\<lambda>_. deleteProduct pid) s3 = (Inr x, s')"
    by (rule bind_rq_Inr)
  from r3 obtain u4 s4 where q4: "delete_photos l3 s3 = (Inr u4, s4)"
    and q5: "deleteProduct pid s4 = (Inr x, s')"
    by (rule bind_rq_Inr)
  note a = queryComponents_Inr[OF q1] and b = detach_components_Inr[OF q2]
    and c = queryPhotos_Inr[OF q3] and d = delete_photos_Inr[OF q4]
    and e = deleteProduct_Inr[OF q5]
  show "componentTests s'
     = map (\<lambda>c. if c_id c \<in> set (map c_id (filter (\<lambda>c. c_productId c = pid) (componentTests s)))
                then c\<lparr>c_productId := []\<rparr> else c) (componentTests s)"
    using a b c d e by simp
  show "productPhotos s'
     = filter (\<lambda>ph. ph_id ph \<notin> set (map ph_id (filter (\<lambda>ph. ph_productId ph = pid) (productPhotos s))))
         (productPhotos s)"
    using a b c d e by simp
  show "products s' = filter (\<lambda>p. p_id p \<noteq> pid) (products s)"
    using a b c d e by simp
qed

lemma detach_components_no_fault:
  "faultAfter s = None \<Longrightarrow>
   \<exists>s'. detach_components l s = (Inr (), s') \<and> faultAfter s' = None"
proof (induction l arbitrary: s)
  case Nil
  then show ?case by simp
next
  case (Cons a l)
  have "\<exists>s1. updateComponent (c_id a) (\<lambda>c. c\<lparr>c_productId := []\<rparr>) s = (Inr (), s1)
          \<and> faultAfter s1 = None"
    using Cons.prems by (simp add: updateComponent_def request_no_fault)
  then obtain s1 where s1: "updateComponent (c_id a) (\<lambda>c. c\<lparr>c_productId := []\<rparr>) s = (Inr (), s1)"
    "faultAfter s1 = None" by blast
  from Cons.IH[OF s1(2)] s1(1) show ?case by (simp add: bind_rq_def)
qed

lemma delete_photos_no_fault:
  "faultAfter s = None \<Longrightarrow>
   \<exists>s'. delete_photos l s = (Inr (), s') \<and> faultAfter s' = None"
proof (induction l arbitrary: s)
  case Nil
  then show ?case by simp
next
  case (Cons a l)
  have "\<exists>s1. deletePhoto (ph_id a) s = (Inr (), s1) \<and> faultAfter s1 = None"
    using Cons.prems by (simp add: deletePhoto_def request_no_fault)
  then obtain s1 where s1: "deletePhoto (ph_id a) s = (Inr (), s1)" "faultAfter s1 = None"
    by blast
  from Cons.IH[OF s1(2)] s1(1) show ?case by (simp add: bind_rq_def)
qed

lemma delete_try_no_fault:
  assumes "faultAfter s = None"
  shows "\<exists>s'. delete_try pid s = (Inr (), s')"
proof -
  have q1: "queryComponents pid s = (Inr (filter (\<lambda>c. c_productId c = pid) (componentTests s)), s)"
    using assms by (simp add: queryComponents_def request_no_fault)
  obtain s2 where q2:
    "detach_components (filter (\<lambda>c. c_productId c = pid) (componentTests s)) s = (Inr (), s2)"
    "faultAfter s2 = None"
    using detach_components_no_fault[OF assms] by blast
  have q3: "queryPhotos pid s2
      = (Inr (filter (\<lambda>ph. ph_productId ph = pid) (productPhotos s2)), s2)"
    using q2(2) by (simp add: queryPhotos_def request_no_fault)
  obtain s4 where q4:
    "delete_photos (filter (\<lambda>ph. ph_productId ph = pid) (productPhotos s2)) s2 = (Inr (), s4)"
    "faultAfter s4 = None"
    using delete_photos_no_fault[OF q2(2)] by blast
  have q5: "\<exists>s'. deleteProduct pid s4 = (Inr (), s')"
    using q4(2) by (simp add: deleteProduct_def request_no_fault)
  then show ?thesis
    by (auto simp: delete_try_def bind_rq_def q1 q2 q3 q4)
qed

lemma owned_ids_distinct:
  assumes "distinct (map f xs)" and "x \<in> set xs"
  shows "f x \<in> set (map f (filter P xs)) \<longleftrightarrow> P x"
proof
  assume "f x \<in> set (map f (filter P xs))"
  then obtain y where y: "y \<in> set xs" "P y" "f y = f x" by auto
  with assms have "y = x" by (meson distinct_map inj_onD)
  with y show "P x" by simp
next
  assume "P x" with assms(2) show "f x \<in> set (map f (filter P xs))" by auto
qed

text \<open>
  C7. When handleDeleteProduct goes through (it logs no failure, which is the case
  whenever the store rejects no request), every component test owned by the product has
  its owning reference cleared and stays in the store with its other fields, every photo
  owned by the product is removed from the store, the product record is removed, and the
  selection is cleared if it was this product and kept otherwise. With the store's ids
  unique, no other component test and no other photo is touched.
\<close>

theorem handleDeleteProduct_detaches_and_deletes:
  "(faultAfter s = None \<longrightarrow> snd (snd (handleDeleteProduct pid ui s)) = [])
   \<and> (handleDeleteProduct pid ui s = (ui', s', []) \<longrightarrow>
        map c_id (componentTests s') = map c_id (componentTests s)
        \<and> (\<forall>i<length (componentTests s). c_productId (componentTests s ! i) = pid \<longrightarrow>
              componentTests s' ! i = (componentTests s ! i)\<lparr>c_productId := []\<rparr>)
        \<and> (\<forall>ph\<in>set (productPhotos s'). ph_productId ph \<noteq> pid \<and> ph \<in> set (productPhotos s))
        \<and> products s' = filter (\<lambda>p. p_id p \<noteq> pid) (products s)
        \<and> ui' = (if selectedProductId ui = Some pid then ui\<lparr>selectedProductId := None\<rparr> else ui))
   \<and> (handleDeleteProduct pid ui s = (ui', s', []) \<and> distinct (map c_id (componentTests s))
        \<and> distinct (map ph_id (productPhotos s)) \<longrightarrow>
        componentTests s'
          = map (\<lambda>c. if c_productId c = pid then c\<lparr>c_productId := []\<rparr> else c) (componentTests s)
        \<and> productPhotos s' = filter (\<lambda>ph. ph_productId ph \<noteq> pid) (productPhotos s))"
proof -
  have ok: "snd (snd (handleDeleteProduct pid ui s)) = []" if "faultAfter s = None"
    using delete_try_no_fault[OF that, of pid] by (auto simp: handleDeleteProduct_def)
  have run: "delete_try pid s = (Inr (), s')
      \<and> ui' = (if selectedProductId ui = Some pid then ui\<lparr>selectedProductId := None\<rparr> else ui)"
    if "handleDeleteProduct pid ui s = (ui', s', [])"
    using that by (auto simp: handleDeleteProduct_def split: prod.splits sum.splits)
  have main: "map c_id (componentTests s') = map c_id (componentTests s)
        \<and> (\<forall>i<length (componentTests s). c_productId (componentTests s ! i) = pid \<longrightarrow>
              componentTests s' ! i = (componentTests s ! i)\<lparr>c_productId := []\<rparr>)
        \<and> (\<forall>ph\<in>set (productPhotos s'). ph_productId ph \<noteq> pid \<and> ph \<in> set (productPhotos s))
        \<and> products s' = filter (\<lambda>p. p_id p \<noteq> pid) (products s)"
    if "delete_try pid s = (Inr (), s')"
  proof -
    note d = delete_try_Inr[OF that]
    have ids: "map c_id (componentTests s') = map c_id (componentTests s)"
      by (simp add: d(1) o_def)
    have owned: "componentTests s' ! i = (componentTests s ! i)\<lparr>c_productId := []\<rparr>"
      if "i < length (componentTests s)" "c_productId (componentTests s ! i) = pid" for i
    proof -
      have "componentTests s ! i \<in> set (filter (\<lambda>c. c_productId c = pid) (componentTests s))"
        using that by simp
      then have "c_id (componentTests s ! i)
          \<in> set (map c_id (filter (\<lambda>c. c_productId c = pid) (componentTests s)))"
        by (simp only: set_map) (rule imageI)
      then show ?thesis using that(1) by (simp add: d(1))
    qed
    have photos: "ph_productId ph \<noteq> pid \<and> ph \<in> set (productPhotos s)"
      if "ph \<in> set (productPhotos s')" for ph
      using that by (auto simp: d(2))
    from ids owned photos d(3) show ?thesis by blast
  qed
  have exact: "componentTests s'
          = map (\<lambda>c. if c_productId c = pid then c\<lparr>c_productId := []\<rparr> else c) (componentTests s)
        \<and> productPhotos s' = filter (\<lambda>ph. ph_productId ph \<noteq> pid) (productPhotos s)"
    if run': "delete_try pid s = (Inr (), s')" and dc: "distinct (map c_id (componentTests s))"
      and dp: "distinct (map ph_id (productPhotos s))"
  proof -
    note d = delete_try_Inr[OF run']
    have "componentTests s'
          = map (\<lambda>c. if c_productId c = pid then c\<lparr>c_productId := []\<rparr> else c) (componentTests s)"
      unfolding d(1)
    proof (rule map_cong[OF refl])
      fix c assume "c \<in> set (componentTests s)"
      then show "(if c_id c \<in> set (map c_id (filter (\<lambda>c. c_productId c = pid) (componentTests s)))
                  then c\<lparr>c_productId := []\<rparr> else c)
               = (if c_productId c = pid then c\<lparr>c_productId := []\<rparr> else c)"
        by (simp only: owned_ids_distinct[OF dc])
    qed
    moreover have "productPhotos s' = filter (\<lambda>ph. ph_productId ph \<noteq> pid) (productPhotos s)"
      unfolding d(2)
    proof (rule filter_cong[OF refl])
      fix ph assume "ph \<in> set (productPhotos s)"
      then show "(ph_id ph \<notin> set (map ph_id (filter (\<lambda>ph. ph_productId ph = pid) (productPhotos s))))
               = (ph_productId ph \<noteq> pid)"
        by (simp only: owned_ids_distinct[OF dp])
    qed
    ultimately show ?thesis by blast
  qed
  from ok run main exact show ?thesis by blast
qed

theorem handleDeleteProduct_detaches_and_deletes_witness:
  "faultAfter example_store = None
   \<and> distinct (map c_id (componentTests example_store))
   \<and> distinct (map ph_id (productPhotos example_store))
   \<and> fst (handleDeleteProduct (js ''p1'') example_ui example_store)
       = example_ui\<lparr>selectedProductId := None\<rparr>
   \<and> snd (snd (handleDeleteProduct (js ''p1'') example_ui example_store)) = []
   \<and> products (fst (snd (handleDeleteProduct (js ''p1'') example_ui example_store)))
       = [other_product]
   \<and> map c_productId
        (componentTests (fst (snd (handleDeleteProduct (js ''p1'') example_ui example_store))))
       = [] # [js ''p2'', []]
   \<and> map c_id
        (componentTests (fst (snd (handleDeleteProduct (js ''p1'') example_ui example_store))))
       = [js ''c1'', js ''c2'', js ''c3'']
   \<and> map ph_id
        (productPhotos (fst (snd (handleDeleteProduct (js ''p1'') example_ui example_store))))
       = [js ''f2'']"
proof -
  have nf: "faultAfter example_store = None"
    by (simp add: example_store_def)
  have dc: "distinct (map c_id (componentTests example_store))"
    by (simp add: example_store_def example_components_def js_def)
  have dp: "distinct (map ph_id (productPhotos example_store))"
    by (simp add: example_store_def example_photos_def js_def)
  have sel: "selectedProductId example_ui = Some (js ''p1'')"
    by (simp add: example_ui_def)
  obtain ui' s' l where r: "handleDeleteProduct (js ''p1'') example_ui example_store = (ui', s', l)"
    by (cases "handleDeleteProduct (js ''p1'') example_ui example_store") auto
  note inst = handleDeleteProduct_detaches_and_deletes
               [of example_store "js ''p1''" example_ui ui' s']
  have l: "l = []" using inst nf r by simp
  have ui: "ui' = example_ui\<lparr>selectedProductId := None\<rparr>"
    using inst r l sel by simp
  have prods: "products s' = [other_product]"
    using inst r l
    by (simp add: example_store_def example_product_def other_product_def js_def)
  have comps: "componentTests s'
      = map (\<lambda>c. if c_productId c = js ''p1'' then c\<lparr>c_productId := []\<rparr> else c)
          (componentTests example_store)"
    using inst r l dc dp by blast
  have phs: "productPhotos s'
      = filter (\<lambda>ph. ph_productId ph \<noteq> js ''p1'') (productPhotos example_store)"
    using inst r l dc dp by blast
  have c1: "map c_productId (componentTests s') = [] # [js ''p2'', []]"
    by (simp add: comps example_store_def example_components_def js_def)
  have c2: "map c_id (componentTests s') = [js ''c1'', js ''c2'', js ''c3'']"
    by (simp add: comps example_store_def example_components_def js_def)
  have p1: "map ph_id (productPhotos s') = [js ''f2'']"
    by (simp add: phs example_store_def example_photos_def js_def)
  show ?thesis
    using nf dc dp by (simp add: r l ui prods c1 c2 p1)
qed

section \<open>The report builder, as specified\<close>

text \<open>
  C1. For a product with a name and an inventory id, the builder returns a document
  with one component entry per component and one photo entry per photo, in the order
  of the inputs: the entry at each position carries the name, notes, status marker and
  last-tested time of the component at that position, and the photo entry at each
  position carries the image source of the photo at that position, embedded or marked
  unavailable. Nothing is dropped.
\<close>

theorem generateWordDocument_keeps_every_entry:
  "p_name p \<noteq> [] \<and> inventoryId p \<noteq> [] \<longrightarrow>
     (\<exists>doc. generateWordDocument decodable now p comps phs shot = Inr doc
        \<and> length (component_entries doc) = length comps
        \<and> length (photo_entries doc) = length phs
        \<and> map ce_name (component_entries doc) = map c_name comps
        \<and> map ce_notes (component_entries doc) = map c_notes comps
        \<and> map ce_testedAt (component_entries doc) = map testedAt comps
        \<and> map ce_marker (component_entries doc) = map (\<lambda>c. status_marker_of (status c)) comps
        \<and> map image_source (photo_entries doc) = map url phs)"
  by (simp add: generateWordDocument_def component_entry_of_def embed_image_def o_def)

theorem generateWordDocument_keeps_every_entry_witness:
  "p_name example_product \<noteq> [] \<and> inventoryId example_product \<noteq> []
   \<and> (\<exists>doc. generateWordDocument (\<lambda>src. take 5 src = js ''data:'') 7 example_product
              example_components example_photos None = Inr doc
        \<and> map ce_name (component_entries doc) = [js ''Screen'', js ''Button'', js ''Battery'']
        \<and> map ce_marker (component_entries doc)
            = [Marker_working, Marker_not_working, Marker_untested]
        \<and> photo_entries doc
            = [Embedded (js ''data:image/png;base64,AAAA''),
               Image_unavailable (js ''https://example.org/a.png'')])"
proof -
  have ne: "p_name example_product \<noteq> []" "inventoryId example_product \<noteq> []"
    by (simp_all add: example_product_def js_def)
  obtain doc where doc:
    "generateWordDocument (\<lambda>src. take 5 src = js ''data:'') 7 example_product
       example_components example_photos None = Inr doc"
    "map ce_name (component_entries doc) = map c_name example_components"
    "map ce_marker (component_entries doc)
       = map (\<lambda>c. status_marker_of (status c)) example_components"
    using generateWordDocument_keeps_every_entry
            [of example_product "\<lambda>src. take 5 src = js ''data:''" 7 example_components
                example_photos None] ne
    by blast
  have names: "map c_name example_components = [js ''Screen'', js ''Button'', js ''Battery'']"
    by (simp add: example_components_def)
  have marks: "map (\<lambda>c. status_marker_of (status c)) example_components
      = [Marker_working, Marker_not_working, Marker_untested]"
    by (simp add: example_components_def status_marker_of_def js_def)
  have "photo_entries doc
      = [Embedded (js ''data:image/png;base64,AAAA''),
         Image_unavailable (js ''https://example.org/a.png'')]"
    using doc(1) ne
    by (auto simp: generateWordDocument_def example_photos_def embed_image_def)
       (simp_all add: js_def)
  with doc names marks ne show ?thesis by simp
qed

text \<open>
  C8. Two runs of the builder on the same product, components, photos and screenshot,
  at two different times, either both reject the input or return two documents that
  agree in the title block, the component entries, the photo entries (so in their
  number) and the screenshot section; the documents differ at most in the generated-at
  stamp.
\<close>

theorem generateWordDocument_structure_deterministic:
  "(generateWordDocument decodable t1 p comps phs shot = Inr d1
      \<and> generateWordDocument decodable t2 p comps phs shot = Inr d2 \<longrightarrow>
        title d1 = title d2
        \<and> component_entries d1 = component_entries d2
        \<and> length (photo_entries d1) = length (photo_entries d2)
        \<and> photo_entries d1 = photo_entries d2
        \<and> screenshot_section d1 = screenshot_section d2
        \<and> generatedAt d1 = t1 \<and> generatedAt d2 = t2
        \<and> d1 = d2\<lparr>generatedAt := t1\<rparr>)
   \<and> (generateWordDocument decodable t1 p comps phs shot = Inl InvalidInput
        \<longleftrightarrow> generateWordDocument decodable t2 p comps phs shot = Inl InvalidInput)"
  by (auto simp: generateWordDocument_def split: if_splits)

theorem generateWordDocument_structure_deterministic_witness:
  "(\<exists>d1 d2.
      generateWordDocument (\<lambda>src. take 5 src = js ''data:'') 1 example_product
        example_components example_photos (Some (js ''data:image/png;base64,BBBB'')) = Inr d1
      \<and> generateWordDocument (\<lambda>src. take 5 src = js ''data:'') 2 example_product
        example_components example_photos (Some (js ''data:image/png;base64,BBBB'')) = Inr d2
      \<and> component_entries d1 = component_entries d2
      \<and> photo_entries d1 = photo_entries d2
      \<and> d1 \<noteq> d2 \<and> d1 = d2\<lparr>generatedAt := 1\<rparr>)"
proof -
  have ne: "p_name example_product \<noteq> []" "inventoryId example_product \<noteq> []"
    by (simp_all add: example_product_def js_def)
  obtain d1 where d1:
    "generateWordDocument (\<lambda>src. take 5 src = js ''data:'') 1 example_product
        example_components example_photos (Some (js ''data:image/png;base64,BBBB'')) = Inr d1"
    using ne by (simp add: generateWordDocument_def)
  obtain d2 where d2:
    "generateWordDocument (\<lambda>src. take 5 src = js ''data:'') 2 example_product
        example_components example_photos (Some (js ''data:image/png;base64,BBBB'')) = Inr d2"
    using ne by (simp add: generateWordDocument_def)
  note inst = generateWordDocument_structure_deterministic
                [of "\<lambda>src. take 5 src = js ''data:''" 1 example_product example_components
                    example_photos "Some (js ''data:image/png;base64,BBBB'')" d1 2 d2]
  have "generatedAt d1 \<noteq> generatedAt d2"
    using inst d1 d2 by simp
  then have "d1 \<noteq> d2" by auto
  with inst d1 d2 show ?thesis by blast
qed

end
